theory Spec2Isabelle
  imports Main "HOL-Library.Sublist"
begin

section \<open>Go runtime: byte strings, indexing and slicing that panic\<close>

text \<open>
  A Go string is a sequence of bytes, here a \<open>char list\<close>. Indexing \<open>s[i]\<close> outside
  \<open>0 \<le> i < len(s)\<close> and slicing \<open>s[i:j]\<close> outside \<open>0 \<le> i \<le> j \<le> len(s)\<close> are run-time
  panics; they are the \<open>Inl\<close> results below. Indices are Go \<open>int\<close>s, so that the \<open>-1\<close> of a
  failed search can be written as the source writes it.
\<close>

datatype panic = IndexOutOfRange | SliceBoundsOutOfRange

definition index_at :: "string \<Rightarrow> int \<Rightarrow> panic + char" where
  \<comment> \<open>\<open>s[i]\<close>\<close>
  "index_at s i =
     (if 0 \<le> i \<and> i < int (length s) then Inr (s ! nat i) else Inl IndexOutOfRange)"

definition slice_from :: "string \<Rightarrow> int \<Rightarrow> panic + string" where
  \<comment> \<open>\<open>s[i:]\<close>\<close>
  "slice_from s i =
     (if 0 \<le> i \<and> i \<le> int (length s) then Inr (drop (nat i) s)
      else Inl SliceBoundsOutOfRange)"

definition slice_to :: "string \<Rightarrow> int \<Rightarrow> panic + string" where
  \<comment> \<open>\<open>s[:j]\<close>\<close>
  "slice_to s j =
     (if 0 \<le> j \<and> j \<le> int (length s) then Inr (take (nat j) s)
      else Inl SliceBoundsOutOfRange)"

definition slice :: "string \<Rightarrow> int \<Rightarrow> int \<Rightarrow> panic + string" where
  \<comment> \<open>\<open>s[i:j]\<close>\<close>
  "slice s i j =
     (if 0 \<le> i \<and> i \<le> j \<and> j \<le> int (length s)
      then Inr (take (nat j - nat i) (drop (nat i) s))
      else Inl SliceBoundsOutOfRange)"

section \<open>The library functions ParseSyslog calls\<close>

text \<open>
  \<open>strings.IndexRune(s, r)\<close> for a rune below \<open>0x80\<close> (the source passes \<open>'>'\<close>, \<open>' '\<close>
  and \<open>']'\<close>): the index of the first such byte, or \<open>-1\<close>.
\<close>

fun IndexRune :: "string \<Rightarrow> char \<Rightarrow> int" where
  "IndexRune [] r = - 1"
| "IndexRune (c # cs) r =
     (if c = r then 0
      else (let i = IndexRune cs r in if i < 0 then - 1 else i + 1))"

text \<open>
  \<open>strconv.Atoi\<close>: an optional sign, then one or more decimal digits; the value must fit
  a 64-bit \<open>int\<close>. \<open>atoi_digits\<close> is its loop \<open>n = n*10 + int(ch - '0')\<close>, which stops
  with a syntax error at the first byte that is not a digit.
\<close>

fun atoi_digits :: "string \<Rightarrow> int \<Rightarrow> int option" where
  "atoi_digits [] n = Some n"
| "atoi_digits (ch # cs) n =
     (let d = (of_char ch :: nat) in
      if 48 \<le> d \<and> d \<le> 57 then atoi_digits cs (n * 10 + int (d - 48)) else None)"

definition Atoi :: "string \<Rightarrow> int option" where
  "Atoi s =
     (case s of
        [] \<Rightarrow> None
      | c # cs \<Rightarrow>
          (let body = (if c = CHR ''-'' \<or> c = CHR ''+'' then cs else s) in
           if body = [] then None
           else (case atoi_digits body 0 of
                   None \<Rightarrow> None
                 | Some n \<Rightarrow>
                     (let v = (if c = CHR ''-'' then - n else n) in
                      if - (2 ^ 63) \<le> v \<and> v < 2 ^ 63 then Some v else None))))"

text \<open>
  \<open>strings.SplitN(s, sep, n)\<close> for a one-byte separator (the source passes \<open>" "\<close>):
  \<open>n = 0\<close> gives no parts, \<open>n < 0\<close> all of them, and \<open>n > 0\<close> at most \<open>n\<close> parts, the last
  one being the unsplit remainder. \<open>split_loop\<close> is the loop of the library's \<open>genSplit\<close>,
  counting the cuts that are still allowed.
\<close>

fun split_loop :: "string \<Rightarrow> char \<Rightarrow> nat \<Rightarrow> string list" where
  "split_loop s sep 0 = [s]"
| "split_loop s sep (Suc k) =
     (let m = IndexRune s sep in
      if m < 0 then [s]
      else take (nat m) s # split_loop (drop (nat m + 1) s) sep k)"

definition SplitN :: "string \<Rightarrow> char \<Rightarrow> int \<Rightarrow> string list" where
  "SplitN s sep n =
     (if n = 0 then []
      else (let n1 = (if n < 0 then int (count_list s sep) + 1 else n);
                n2 = (if n1 > int (length s) + 1 then int (length s) + 1 else n1)
            in split_loop s sep (nat (n2 - 1))))"

text \<open>\<open>strings.Join(elems, sep)\<close>.\<close>

fun Join :: "string list \<Rightarrow> string \<Rightarrow> string" where
  "Join [] sep = []"
| "Join [x] sep = x"
| "Join (x # y # ys) sep = x @ sep @ Join (y # ys) sep"

text \<open>
  The \<open>time\<close> package is outside the repository. \<open>time.Parse(layout, value)\<close> is taken as
  a parameter, one function for each of the three layouts the source uses; each gives
  \<open>ts.String()\<close> of the parsed time, or \<open>None\<close> where \<open>time.Parse\<close> returns an error.
\<close>

record time_pkg =
  Parse_RFC3339Nano :: "string \<Rightarrow> string option"
  Parse_RFC3339 :: "string \<Rightarrow> string option"
  Parse_Stamp :: "string \<Rightarrow> string option"

text \<open>
  The wall clock: \<open>now_utc\<close> is what \<open>time.Now().UTC().String()\<close> gives, and \<open>consulted\<close>
  counts the calls of \<open>time.Now\<close>.
\<close>

record clock =
  now_utc :: string
  consulted :: nat

definition time_Now :: "clock \<Rightarrow> string \<times> clock" where
  "time_Now clk = (now_utc clk, clk\<lparr>consulted := consulted clk + 1\<rparr>)"

section \<open>SyslogMessage and ParseSyslog\<close>

record SyslogMessage =
  Version :: int
  Facility :: int
  Severity :: int
  Timestamp :: string
  Hostname :: string
  Tag :: string
  StructuredData :: string
  Message :: string
  Source :: string

text \<open>
  ParseSyslog is one function of nested conditionals over the message under construction
  and the cursor \<open>rest\<close>. The model has one definition for each commented block of the
  source, each from the pair \<open>(msg, rest)\<close> on entry to the pair on exit, or to the panic
  that ends the call.
\<close>

definition parse_structured_data ::
  "SyslogMessage \<Rightarrow> string \<Rightarrow> panic + (SyslogMessage \<times> string)" where
  \<comment> \<open>lines 85 to 90\<close>
  "parse_structured_data msg rest =
     (case index_at rest 0 of
        Inl e \<Rightarrow> Inl e
      | Inr c \<Rightarrow>
          if c = CHR ''['' then
            (let sdEnd = IndexRune rest CHR '']'' in
             if sdEnd > 1 then
               (case slice_to rest sdEnd of
                  Inl e \<Rightarrow> Inl e
                | Inr sd \<Rightarrow>
                    (case slice_from rest (sdEnd + 2) of
                       Inl e \<Rightarrow> Inl e
                     | Inr rest' \<Rightarrow> Inr (msg\<lparr>StructuredData := sd\<rparr>, rest')))
             else Inr (msg, rest))
          else Inr (msg, rest))"

definition parse_structured_fields ::
  "SyslogMessage \<Rightarrow> string \<Rightarrow> SyslogMessage \<times> string" where
  \<comment> \<open>lines 76 to 80\<close>
  "parse_structured_fields msg rest =
     (let parts = SplitN rest CHR '' '' 5 in
      if length parts = 5
      then (msg\<lparr>Hostname := parts ! 0, Tag := Join (take 3 (drop 1 parts)) '' ''\<rparr>,
            parts ! 4)
      else (msg, rest))"

definition parse_structured ::
  "time_pkg \<Rightarrow> SyslogMessage \<Rightarrow> string \<Rightarrow> panic + (SyslogMessage \<times> string)" where
  \<comment> \<open>lines 61 to 92, the branch \<open>rest[0] == '1'\<close>\<close>
  "parse_structured tp msg0 rest0 =
     (let msg = msg0\<lparr>Version := 1\<rparr> in
      case slice_from rest0 2 of
        Inl e \<Rightarrow> Inl e
      | Inr rest \<Rightarrow>
          (let tsEnd = IndexRune rest CHR '' '' in
           if tsEnd \<ge> 0 then
             (case slice_to rest tsEnd of
                Inl e \<Rightarrow> Inl e
              | Inr tok \<Rightarrow>
                  (case (case Parse_RFC3339Nano tp tok of
                           Some ts \<Rightarrow> Some ts
                         | None \<Rightarrow> Parse_RFC3339 tp tok) of
                     None \<Rightarrow> Inr (msg, rest)
                   | Some ts \<Rightarrow>
                       (case slice_from rest (tsEnd + 1) of
                          Inl e \<Rightarrow> Inl e
                        | Inr rest1 \<Rightarrow>
                            (case parse_structured_fields (msg\<lparr>Timestamp := ts\<rparr>) rest1 of
                               (msg2, rest2) \<Rightarrow> parse_structured_data msg2 rest2))))
           else Inr (msg, rest)))"

definition parse_legacy ::
  "time_pkg \<Rightarrow> SyslogMessage \<Rightarrow> string \<Rightarrow> panic + (SyslogMessage \<times> string)" where
  \<comment> \<open>lines 94 to 105, the \<open>else\<close> branch\<close>
  "parse_legacy tp msg rest =
     (case slice_to rest 15 of
        Inl e \<Rightarrow> Inl e
      | Inr stamp \<Rightarrow>
          (case Parse_Stamp tp stamp of
             None \<Rightarrow> Inr (msg, rest)
           | Some ts \<Rightarrow>
               (case slice_from rest 16 of
                  Inl e \<Rightarrow> Inl e
                | Inr rest1 \<Rightarrow>
                    (let parts = SplitN rest1 CHR '' '' 3 in
                     if length parts = 3
                     then Inr (msg\<lparr>Timestamp := ts, Hostname := parts ! 0, Tag := parts ! 1\<rparr>,
                               parts ! 2)
                     else Inr (msg\<lparr>Timestamp := ts\<rparr>, rest1)))))"

definition parse_after_pri ::
  "time_pkg \<Rightarrow> SyslogMessage \<Rightarrow> string \<Rightarrow> panic + (SyslogMessage \<times> string)" where
  \<comment> \<open>lines 59 to 106: the version test and the two grammars\<close>
  "parse_after_pri tp msg rest =
     (case index_at rest 0 of
        Inl e \<Rightarrow> Inl e
      | Inr c \<Rightarrow>
          if c = CHR ''1'' then parse_structured tp msg rest
          else parse_legacy tp msg rest)"

definition parse_pri ::
  "time_pkg \<Rightarrow> SyslogMessage \<Rightarrow> string \<Rightarrow> panic + (SyslogMessage \<times> string)" where
  \<comment> \<open>lines 52 to 109\<close>
  "parse_pri tp msg rest =
     (case index_at rest 0 of
        Inl e \<Rightarrow> Inl e
      | Inr c \<Rightarrow>
          if c = CHR ''<'' then
            (let priEnd = IndexRune rest CHR ''>'' in
             if priEnd > 1 \<and> priEnd < 5 then
               (case slice rest 1 priEnd of
                  Inl e \<Rightarrow> Inl e
                | Inr digits \<Rightarrow>
                    (case Atoi digits of
                       None \<Rightarrow> Inr (msg, rest)
                     | Some pri \<Rightarrow>
                         (case slice_from rest (priEnd + 1) of
                            Inl e \<Rightarrow> Inl e
                          | Inr rest1 \<Rightarrow>
                              parse_after_pri tp
                                (msg\<lparr>Facility := drop_bit 3 pri,
                                     Severity := and pri 7\<rparr>)
                                rest1)))
             else Inr (msg, rest))
          else Inr (msg, rest))"

definition ParseSyslog ::
  "time_pkg \<Rightarrow> clock \<Rightarrow> string \<Rightarrow> string \<Rightarrow> (panic + SyslogMessage) \<times> clock" where
  "ParseSyslog tp clk buf source =
     (case time_Now clk of
        (now, clk') \<Rightarrow>
          (let msg = \<lparr>Version = 0, Facility = 0, Severity = 5, Timestamp = now,
                       Hostname = source, Tag = [], StructuredData = [],
                       Message = [], Source = source\<rparr>
           in (case parse_pri tp msg buf of
                 Inl e \<Rightarrow> Inl e
               | Inr (msg', rest) \<Rightarrow> Inr (msg'\<lparr>Message := rest\<rparr>),
               clk')))"

text \<open>
  The decimal numeral of a natural number, most significant digit first and without
  leading zeros, as \<open>strconv.Itoa\<close> writes it: the form in which a sender writes the
  PRI value between \<open><\<close> and \<open>>\<close>.
\<close>

fun decimal :: "nat \<Rightarrow> string" where
  "decimal n =
     (if n < 10 then [char_of (48 + n)]
      else decimal (n div 10) @ [char_of (48 + n mod 10)])"

text \<open>
  How two messages built under clocks showing \<open>ta\<close> and \<open>tb\<close> are related: they are
  equal, or the first still carries \<open>ta\<close> as its Timestamp and the second is the first
  with \<open>tb\<close> in its place.
\<close>

definition clock_as_default ::
  "string \<Rightarrow> string \<Rightarrow> SyslogMessage \<Rightarrow> SyslogMessage \<Rightarrow> bool" where
  "clock_as_default ta tb a b = (a = b \<or> (Timestamp a = ta \<and> b = a\<lparr>Timestamp := tb\<rparr>))"

section \<open>A time package and a clock for concrete runs\<close>

text \<open>
  For evaluating ParseSyslog on the packets of the repository's test file:
  \<open>test_time\<close> accepts the RFC 3339 token of the first test packet and the stamp of the
  second one, with the strings \<open>time.Parse\<close> and \<open>String\<close> give for them when the local
  zone is UTC, and rejects every other token (so in particular the nil value \<open>-\<close>);
  \<open>test_clock\<close> is a clock that has not been read yet.
\<close>

definition test_time :: time_pkg where
  "test_time =
     \<lparr>Parse_RFC3339Nano =
        (\<lambda>s. if s = ''2015-12-15T11:54:41.946675-08:00''
             then Some ''2015-12-15 11:54:41.946675 -0800 -0800'' else None),
      Parse_RFC3339 =
        (\<lambda>s. if s = ''2015-12-15T11:54:41.946675-08:00''
             then Some ''2015-12-15 11:54:41.946675 -0800 -0800'' else None),
      Parse_Stamp =
        (\<lambda>s. if s = ''Dec 15 11:55:02''
             then Some ''0000-12-15 11:55:02 +0000 UTC'' else None)\<rparr>"

text \<open>
  \<open>time.Parse\<close> names the zone of a parsed offset after the local time zone of the
  process when the offset is the one in force there, and \<open>String\<close> prints that name:
  \<open>test_time_pst\<close> is \<open>test_time\<close> for a process whose local zone is
  America/Los_Angeles, where \<open>-08:00\<close> in December is PST.
\<close>

definition test_time_pst :: time_pkg where
  "test_time_pst =
     \<lparr>Parse_RFC3339Nano =
        (\<lambda>s. if s = ''2015-12-15T11:54:41.946675-08:00''
             then Some ''2015-12-15 11:54:41.946675 -0800 PST'' else None),
      Parse_RFC3339 =
        (\<lambda>s. if s = ''2015-12-15T11:54:41.946675-08:00''
             then Some ''2015-12-15 11:54:41.946675 -0800 PST'' else None),
      Parse_Stamp =
        (\<lambda>s. if s = ''Dec 15 11:55:02''
             then Some ''0000-12-15 11:55:02 +0000 UTC'' else None)\<rparr>"

definition test_clock :: clock where
  "test_clock = \<lparr>now_utc = ''2015-12-15 19:54:41 +0000 UTC'', consulted = 0\<rparr>"

section \<open>Searching and splitting\<close>

lemma IndexRune_ge: "- 1 \<le> IndexRune s r"
  by (induction s) (auto simp: Let_def)

lemma IndexRune_lt: "IndexRune s r < int (length s)"
  by (induction s) (auto simp: Let_def)

lemma IndexRune_absent: "r \<notin> set s \<Longrightarrow> IndexRune s r = - 1"
  by (induction s) (auto simp: Let_def)

lemma IndexRune_append: "r \<notin> set p \<Longrightarrow> IndexRune (p @ r # q) r = int (length p)"
  by (induction p) (auto simp: Let_def)

lemma IndexRune_split:
  "0 \<le> IndexRune s r \<Longrightarrow>
     \<exists>p q. s = p @ r # q \<and> r \<notin> set p \<and> IndexRune s r = int (length p)"
proof (induction s)
  case Nil
  then show ?case by simp
next
  case (Cons c cs)
  show ?case
  proof (cases "c = r")
    case True
    then have "c # cs = [] @ r # cs \<and> r \<notin> set [] \<and> IndexRune (c # cs) r = int (length ([]::string))"
      by simp
    then show ?thesis by blast
  next
    case False
    with Cons.prems have "0 \<le> IndexRune cs r"
      by (auto simp: Let_def split: if_splits)
    with Cons.IH obtain p q where "cs = p @ r # q" "r \<notin> set p" "IndexRune cs r = int (length p)"
      by blast
    with False have "c # cs = (c # p) @ r # q \<and> r \<notin> set (c # p)
        \<and> IndexRune (c # cs) r = int (length (c # p))"
      by (auto simp: Let_def)
    then show ?thesis by blast
  qed
qed

lemma split_loop_nonempty: "split_loop s sep k \<noteq> []"
  by (cases k) (auto simp: Let_def)

lemma split_loop_last_suffix: "suffix (last (split_loop s sep k)) s"
proof (induction k arbitrary: s)
  case 0
  then show ?case by simp
next
  case (Suc k)
  show ?case
  proof (cases "IndexRune s sep < 0")
    case True
    then show ?thesis by simp
  next
    case False
    have "suffix (last (split_loop (drop (nat (IndexRune s sep) + 1) s) sep k))
            (drop (nat (IndexRune s sep) + 1) s)"
      by (rule Suc.IH)
    then have "suffix (last (split_loop (drop (nat (IndexRune s sep) + 1) s) sep k)) s"
      using suffix_drop suffix_order.trans by blast
    with False show ?thesis
      by (simp add: Let_def split_loop_nonempty)
  qed
qed

lemma split_loop_length: "length (split_loop s sep k) \<le> Suc k"
  by (induction k arbitrary: s) (auto simp: Let_def)

lemma SplitN_last_suffix:
  assumes "length (SplitN s sep n) = Suc k"
  shows "suffix (SplitN s sep n ! k) s"
proof -
  from assms have ne: "n \<noteq> 0" by (auto simp: SplitN_def)
  then obtain j where eq: "SplitN s sep n = split_loop s sep j"
    by (auto simp: SplitN_def Let_def)
  with assms have "SplitN s sep n ! k = last (split_loop s sep j)"
    by (simp add: last_conv_nth split_loop_nonempty)
  then show ?thesis by (simp add: split_loop_last_suffix)
qed

section \<open>What each block of ParseSyslog keeps\<close>

lemma slice_from_suffix: "slice_from s i = Inr t \<Longrightarrow> suffix t s"
  by (auto simp: slice_from_def suffix_drop split: if_splits)

lemma parse_structured_data_frame:
  assumes "parse_structured_data msg rest = Inr (msg', rest')"
  shows "suffix rest' rest \<and> msg' = msg\<lparr>StructuredData := StructuredData msg'\<rparr>"
  using assms
  by (auto simp: parse_structured_data_def Let_def dest: slice_from_suffix
           split: sum.splits if_splits)

lemma parse_structured_fields_frame:
  assumes "parse_structured_fields msg rest = (msg', rest')"
  shows "suffix rest' rest \<and> msg' = msg\<lparr>Hostname := Hostname msg', Tag := Tag msg'\<rparr>"
proof (cases "length (SplitN rest CHR '' '' 5) = 5")
  case True
  then have "suffix (SplitN rest CHR '' '' 5 ! 4) rest"
    using SplitN_last_suffix [of rest "CHR '' ''" 5 4] by simp
  with True assms show ?thesis
    by (auto simp: parse_structured_fields_def Let_def)
next
  case False
  with assms show ?thesis
    by (auto simp: parse_structured_fields_def Let_def)
qed

lemma parse_structured_frame:
  assumes "parse_structured tp msg rest = Inr (msg', rest')"
  shows "suffix rest' rest \<and> Version msg' = 1
         \<and> msg' = msg\<lparr>Version := 1, Timestamp := Timestamp msg', Hostname := Hostname msg',
                        Tag := Tag msg', StructuredData := StructuredData msg'\<rparr>"
proof -
  from assms obtain r2 where r2: "slice_from rest 2 = Inr r2"
    by (auto simp: parse_structured_def Let_def split: sum.splits)
  then have s2: "suffix r2 rest" by (rule slice_from_suffix)
  show ?thesis
  proof (cases "0 \<le> IndexRune r2 CHR '' ''")
    case False
    with assms r2 s2 show ?thesis
      by (auto simp: parse_structured_def Let_def)
  next
    case True
    from assms r2 True obtain tok where tok: "slice_to r2 (IndexRune r2 CHR '' '') = Inr tok"
      by (auto simp: parse_structured_def Let_def split: sum.splits)
    show ?thesis
    proof (cases "case Parse_RFC3339Nano tp tok of Some ts \<Rightarrow> Some ts
                  | None \<Rightarrow> Parse_RFC3339 tp tok")
      case None
      with assms r2 True tok s2 show ?thesis
        by (auto simp: parse_structured_def Let_def)
    next
      case (Some ts)
      with assms r2 True tok obtain r3 m4 r4 where
        r3: "slice_from r2 (IndexRune r2 CHR '' '' + 1) = Inr r3" and
        f: "parse_structured_fields (msg\<lparr>Version := 1, Timestamp := ts\<rparr>) r3 = (m4, r4)" and
        d: "parse_structured_data m4 r4 = Inr (msg', rest')"
        by (auto simp: parse_structured_def Let_def split: sum.splits prod.splits)
      from r3 have s3: "suffix r3 r2" by (rule slice_from_suffix)
      from parse_structured_fields_frame [OF f] have
        s4: "suffix r4 r3" and
        m4: "m4 = msg\<lparr>Version := 1, Timestamp := ts, Hostname := Hostname m4, Tag := Tag m4\<rparr>"
        by simp_all
      from parse_structured_data_frame [OF d] have
        s5: "suffix rest' r4" and
        m5: "msg' = m4\<lparr>StructuredData := StructuredData msg'\<rparr>"
        by simp_all
      from s2 s3 s4 s5 have "suffix rest' rest"
        using suffix_order.trans by blast
      moreover from m4 m5 have "Version msg' = 1"
        by (metis SyslogMessage.select_convs(1) SyslogMessage.surjective SyslogMessage.update_convs(1,4,5,6,7))
      moreover from m4 m5 have "msg' = msg\<lparr>Version := 1, Timestamp := Timestamp msg',
          Hostname := Hostname msg', Tag := Tag msg', StructuredData := StructuredData msg'\<rparr>"
        by (cases msg, cases m4, cases msg') simp
      ultimately show ?thesis by simp
    qed
  qed
qed

lemma parse_legacy_frame:
  assumes "parse_legacy tp msg rest = Inr (msg', rest')"
  shows "suffix rest' rest
         \<and> msg' = msg\<lparr>Timestamp := Timestamp msg', Hostname := Hostname msg', Tag := Tag msg'\<rparr>"
proof -
  from assms obtain stamp where st: "slice_to rest 15 = Inr stamp"
    by (auto simp: parse_legacy_def split: sum.splits)
  show ?thesis
  proof (cases "Parse_Stamp tp stamp")
    case None
    with assms st show ?thesis by (auto simp: parse_legacy_def)
  next
    case (Some ts)
    with assms st obtain r1 where r1: "slice_from rest 16 = Inr r1"
      by (auto simp: parse_legacy_def split: sum.splits)
    then have s1: "suffix r1 rest" by (rule slice_from_suffix)
    show ?thesis
    proof (cases "length (SplitN r1 CHR '' '' 3) = 3")
      case True
      then have "suffix (SplitN r1 CHR '' '' 3 ! 2) r1"
        using SplitN_last_suffix [of r1 "CHR '' ''" 3 2] by simp
      with s1 have "suffix (SplitN r1 CHR '' '' 3 ! 2) rest"
        using suffix_order.trans by blast
      with assms st Some r1 True show ?thesis
        by (auto simp: parse_legacy_def Let_def)
    next
      case False
      with assms st Some r1 s1 show ?thesis
        by (auto simp: parse_legacy_def Let_def)
    qed
  qed
qed

lemma parse_after_pri_frame:
  assumes "parse_after_pri tp msg rest = Inr (msg', rest')"
  shows "suffix rest' rest \<and> Facility msg' = Facility msg \<and> Severity msg' = Severity msg
         \<and> Source msg' = Source msg
         \<and> Version msg' = (if index_at rest 0 = Inr CHR ''1'' then 1 else Version msg)"
proof (cases "index_at rest 0 = Inr CHR ''1''")
  case True
  with assms have p: "parse_structured tp msg rest = Inr (msg', rest')"
    by (simp add: parse_after_pri_def)
  from parse_structured_frame [OF p] have "suffix rest' rest" "Version msg' = 1"
    "msg' = msg\<lparr>Version := 1, Timestamp := Timestamp msg', Hostname := Hostname msg',
                        Tag := Tag msg', StructuredData := StructuredData msg'\<rparr>"
    by simp_all
  moreover from this(3) have "Facility msg' = Facility msg \<and> Severity msg' = Severity msg
         \<and> Source msg' = Source msg"
    by (cases msg, cases msg') simp
  ultimately show ?thesis using True by simp
next
  case False
  with assms have p: "parse_legacy tp msg rest = Inr (msg', rest')"
    by (auto simp: parse_after_pri_def split: sum.splits if_splits)
  from parse_legacy_frame [OF p] have "suffix rest' rest"
    "msg' = msg\<lparr>Timestamp := Timestamp msg', Hostname := Hostname msg', Tag := Tag msg'\<rparr>"
    by simp_all
  moreover from this(2) have "Facility msg' = Facility msg \<and> Severity msg' = Severity msg
         \<and> Source msg' = Source msg \<and> Version msg' = Version msg"
    by (cases msg, cases msg') simp
  ultimately show ?thesis using False by simp
qed

lemma parse_pri_suffix:
  assumes "parse_pri tp msg rest = Inr (msg', rest')"
  shows "suffix rest' rest"
proof (cases "\<exists>pri r1. slice_from rest (IndexRune rest CHR ''>'' + 1) = Inr r1 \<and>
          parse_after_pri tp (msg\<lparr>Facility := drop_bit 3 pri, Severity := and pri 7\<rparr>) r1 = Inr (msg', rest')")
  case True
  then obtain pri r1 where r1: "slice_from rest (IndexRune rest CHR ''>'' + 1) = Inr r1" and
     p: "parse_after_pri tp (msg\<lparr>Facility := drop_bit 3 pri, Severity := and pri 7\<rparr>) r1 = Inr (msg', rest')"
    by blast
  from r1 have "suffix r1 rest" by (rule slice_from_suffix)
  moreover from parse_after_pri_frame [OF p] have "suffix rest' r1" by simp
  ultimately show ?thesis using suffix_order.trans by blast
next
  case False
  with assms have "rest' = rest"
    by (auto simp: parse_pri_def Let_def split: sum.splits if_splits option.splits)
  then show ?thesis by simp
qed

lemmas eval_defs = ParseSyslog_def time_Now_def parse_pri_def parse_after_pri_def
  parse_structured_def parse_structured_fields_def parse_structured_data_def parse_legacy_def
  index_at_def slice_def slice_from_def slice_to_def Atoi_def SplitN_def Let_def
  test_time_def test_clock_def

section \<open>The PRI arithmetic and the decimal numerals\<close>

declare decimal.simps [simp del]

lemma drop_bit_3_div: "drop_bit 3 (pri::int) = pri div 8"
  by (simp add: drop_bit_eq_div)

lemma and_7_mod: "and (pri::int) 7 = pri mod 8"
proof -
  have "and pri 7 = and pri (mask 3)" by (simp add: mask_eq_exp_minus_1)
  also have "\<dots> = take_bit 3 pri" by (simp add: take_bit_eq_mask)
  also have "\<dots> = pri mod 8" by (simp add: take_bit_eq_mod)
  finally show ?thesis .
qed

lemma atoi_digits_bounds:
  "atoi_digits cs n = Some v \<Longrightarrow>
     n * 10 ^ length cs \<le> v \<and> v < (n + 1) * 10 ^ length cs"
proof (induction cs arbitrary: n)
  case Nil
  then show ?case by simp
next
  case (Cons ch cs)
  define d where "d = (of_char ch :: nat)"
  from Cons.prems have d: "48 \<le> d" "d \<le> 57"
    and rec: "atoi_digits cs (n * 10 + int (d - 48)) = Some v"
    by (auto simp: Let_def d_def split: if_splits)
  define n' where "n' = n * 10 + int (d - 48)"
  from d have n': "n * 10 \<le> n'" "n' + 1 \<le> (n + 1) * 10"
    by (auto simp: n'_def)
  from Cons.IH [of n'] rec have
    ih: "n' * 10 ^ length cs \<le> v" "v < (n' + 1) * 10 ^ length cs"
    by (simp_all add: n'_def)
  have "n * 10 * 10 ^ length cs \<le> n' * 10 ^ length cs"
    using n'(1) by (intro mult_right_mono) simp_all
  moreover have "(n' + 1) * 10 ^ length cs \<le> (n + 1) * 10 * 10 ^ length cs"
    using n'(2) by (intro mult_right_mono) simp_all
  moreover have "n * 10 ^ length (ch # cs) = n * 10 * 10 ^ length cs"
    and "(n + 1) * 10 ^ length (ch # cs) = (n + 1) * 10 * 10 ^ length cs"
    by simp_all
  ultimately show ?case using ih by linarith
qed

lemma pow10_le: "k \<le> 3 \<Longrightarrow> (10::int) ^ k \<le> 1000"
  using power_increasing [of k 3 "10::int"] by simp

lemma pow10_le2: "k \<le> 2 \<Longrightarrow> (10::int) ^ k \<le> 100"
  using power_increasing [of k 2 "10::int"] by simp

lemma Atoi_bounds:
  assumes "Atoi ds = Some pri" and "length ds \<le> 3"
  shows "- 99 \<le> pri \<and> pri \<le> 999"
proof -
  from assms(1) obtain c cs where ds: "ds = c # cs"
    by (cases ds) (auto simp: Atoi_def)
  show ?thesis
  proof (cases "c = CHR ''-'' \<or> c = CHR ''+''")
    case True
    with assms(1) ds obtain n where n: "atoi_digits cs 0 = Some n"
      and pri: "pri = (if c = CHR ''-'' then - n else n)"
      by (auto simp: Atoi_def Let_def split: if_splits option.splits)
    from atoi_digits_bounds [OF n] have "0 \<le> n" "n < 10 ^ length cs" by simp_all
    moreover from assms(2) ds have "(10::int) ^ length cs \<le> 100"
      by (intro pow10_le2) simp
    ultimately show ?thesis using pri by auto
  next
    case False
    with assms(1) ds obtain n where n: "atoi_digits ds 0 = Some n" and pri: "pri = n"
      by (auto simp: Atoi_def Let_def split: if_splits option.splits)
    from atoi_digits_bounds [OF n] have "0 \<le> n" "n < 10 ^ length ds" by simp_all
    moreover from assms(2) have "(10::int) ^ length ds \<le> 1000"
      by (intro pow10_le) simp
    ultimately show ?thesis using pri by auto
  qed
qed

lemma parse_pri_shape:
  assumes "CHR ''>'' \<notin> set ds" and "1 \<le> length ds" and "length ds \<le> 3"
  shows "parse_pri tp msg (CHR ''<'' # ds @ CHR ''>'' # r1) =
     (case Atoi ds of
        None \<Rightarrow> Inr (msg, CHR ''<'' # ds @ CHR ''>'' # r1)
      | Some pri \<Rightarrow>
          parse_after_pri tp (msg\<lparr>Facility := drop_bit 3 pri, Severity := and pri 7\<rparr>) r1)"
proof -
  let ?buf = "CHR ''<'' # ds @ CHR ''>'' # r1"
  have "IndexRune ((CHR ''<'' # ds) @ CHR ''>'' # r1) CHR ''>'' = int (length (CHR ''<'' # ds))"
    using assms(1) by (intro IndexRune_append) simp
  then have e: "IndexRune ?buf CHR ''>'' = 1 + int (length ds)" by simp
  have i0: "index_at ?buf 0 = Inr CHR ''<''" by (simp add: index_at_def)
  have sl: "slice ?buf 1 (1 + int (length ds)) = Inr ds"
    by (simp add: slice_def nat_add_distrib)
  have sf: "slice_from ?buf (1 + int (length ds) + 1) = Inr r1"
    by (simp add: slice_from_def nat_add_distrib)
  from assms(2) have ne: "ds \<noteq> []" by auto
  show ?thesis
    unfolding parse_pri_def i0 e Let_def using assms(2,3) ne sl sf
    by (simp split: option.splits)
qed

lemma parse_pri_cases:
  assumes "parse_pri tp msg rest = Inr (msg', rest')"
  shows "(msg' = msg \<and> rest' = rest) \<or>
         (\<exists>pri r1. slice_from rest (IndexRune rest CHR ''>'' + 1) = Inr r1 \<and>
            parse_after_pri tp (msg\<lparr>Facility := drop_bit 3 pri, Severity := and pri 7\<rparr>) r1
              = Inr (msg', rest'))"
  using assms
  by (auto simp: parse_pri_def Let_def split: sum.splits if_splits option.splits)

lemma of_char_digit: "n < 10 \<Longrightarrow> (of_char (char_of (48 + n)) :: nat) = 48 + n"
  by simp

lemma atoi_digits_append:
  "atoi_digits (xs @ ys) n =
     (case atoi_digits xs n of None \<Rightarrow> None | Some v \<Rightarrow> atoi_digits ys v)"
  by (induction xs arbitrary: n) (auto simp: Let_def)

lemma atoi_digits_decimal: "atoi_digits (decimal n) 0 = Some (int n)"
proof (induction n rule: decimal.induct)
  case (1 n)
  show ?case
  proof (cases "n < 10")
    case True
    then show ?thesis by (subst decimal.simps) (simp add: Let_def)
  next
    case False
    have m: "n mod 10 < 10" by simp
    from False 1 have "atoi_digits (decimal (n div 10)) 0 = Some (int (n div 10))" by simp
    moreover have "n mod 10 \<le> 9" by arith
    moreover have "int (n div 10) * 10 + int (n mod 10) = int n" by arith
    ultimately show ?thesis using False m
      by (subst decimal.simps) (simp add: atoi_digits_append Let_def of_char_digit)
  qed
qed

lemma decimal_digits: "c \<in> set (decimal n) \<Longrightarrow> 48 \<le> (of_char c :: nat) \<and> (of_char c :: nat) \<le> 57"
proof (induction n rule: decimal.induct)
  case (1 n)
  show ?case
  proof (cases "n < 10")
    case True
    with "1.prems" show ?thesis by (subst (asm) decimal.simps) auto
  next
    case False
    have m: "n mod 10 < 10" by simp
    from "1.prems" False have "c \<in> set (decimal (n div 10)) \<or> c = char_of (48 + n mod 10)"
      by (subst (asm) decimal.simps) auto
    then show ?thesis
    proof
      assume "c \<in> set (decimal (n div 10))"
      with False 1 show ?thesis by simp
    next
      assume "c = char_of (48 + n mod 10)"
      with m show ?thesis by (simp add: of_char_digit)
    qed
  qed
qed

lemma decimal_nonempty: "decimal n \<noteq> []"
  by (subst decimal.simps) simp

lemma decimal_length: "n < 1000 \<Longrightarrow> length (decimal n) \<le> 3"
proof -
  assume n: "n < 1000"
  have a: "\<And>k. k < 10 \<Longrightarrow> length (decimal k) = 1"
    by (subst decimal.simps) simp
  have b: "\<And>k. k < 100 \<Longrightarrow> length (decimal k) \<le> 2"
    by (subst decimal.simps) (auto simp: a)
  have "n div 10 < 100" using n by simp
  then have "length (decimal (n div 10)) \<le> 2" by (rule b)
  then show ?thesis by (subst decimal.simps) (auto simp: a)
qed

lemma Atoi_decimal:
  assumes "n < 1000" shows "Atoi (decimal n) = Some (int n)"
proof -
  obtain c cs where d: "decimal n = c # cs"
    using decimal_nonempty [of n] by (cases "decimal n") auto
  then have "c \<in> set (decimal n)" by simp
  then have "48 \<le> (of_char c :: nat)" by (rule decimal_digits [THEN conjunct1])
  then have c: "c \<noteq> CHR ''-''" "c \<noteq> CHR ''+''" by auto
  have "atoi_digits (c # cs) 0 = Some (int n)"
    using atoi_digits_decimal [of n] d by simp
  with d c assms show ?thesis
    by (simp add: Atoi_def Let_def del: atoi_digits.simps)
qed

lemma decimal_no_gt: "CHR ''>'' \<notin> set (decimal n)"
proof
  assume "CHR ''>'' \<in> set (decimal n)"
  from decimal_digits [OF this] show False by simp
qed

section \<open>ParseSyslog on buffers of a known shape\<close>

lemma ParseSyslog_fst:
  "fst (ParseSyslog tp clk buf src) =
     (case parse_pri tp \<lparr>Version = 0, Facility = 0, Severity = 5, Timestamp = now_utc clk,
                          Hostname = src, Tag = [], StructuredData = [],
                          Message = [], Source = src\<rparr> buf of
        Inl e \<Rightarrow> Inl e
      | Inr (msg', rest) \<Rightarrow> Inr (msg'\<lparr>Message := rest\<rparr>))"
  by (simp add: ParseSyslog_def time_Now_def Let_def)

lemma ParseSyslog_returns:
  assumes "fst (ParseSyslog tp clk buf src) = Inr m"
  shows "\<exists>msg' rest.
    parse_pri tp \<lparr>Version = 0, Facility = 0, Severity = 5, Timestamp = now_utc clk,
                     Hostname = src, Tag = [], StructuredData = [],
                     Message = [], Source = src\<rparr> buf = Inr (msg', rest)
    \<and> m = msg'\<lparr>Message := rest\<rparr>"
  using assms by (auto simp: ParseSyslog_fst split: sum.splits prod.splits)

lemma parse_structured_shape:
  assumes "CHR '' '' \<notin> set tok"
  shows "parse_structured tp msg (c0 # c1 # tok @ CHR '' '' # rem) =
     (case (case Parse_RFC3339Nano tp tok of Some ts \<Rightarrow> Some ts
            | None \<Rightarrow> Parse_RFC3339 tp tok) of
        None \<Rightarrow> Inr (msg\<lparr>Version := 1\<rparr>, tok @ CHR '' '' # rem)
      | Some ts \<Rightarrow>
          (case parse_structured_fields (msg\<lparr>Version := 1, Timestamp := ts\<rparr>) rem of
             (msg2, rest2) \<Rightarrow> parse_structured_data msg2 rest2))"
proof -
  have s2: "slice_from (c0 # c1 # tok @ CHR '' '' # rem) 2 = Inr (tok @ CHR '' '' # rem)"
    by (simp add: slice_from_def numeral_2_eq_2)
  have e: "IndexRune (tok @ CHR '' '' # rem) CHR '' '' = int (length tok)"
    using assms by (rule IndexRune_append)
  have st: "slice_to (tok @ CHR '' '' # rem) (int (length tok)) = Inr tok"
    by (simp add: slice_to_def)
  have sf: "slice_from (tok @ CHR '' '' # rem) (int (length tok) + 1) = Inr rem"
    by (simp add: slice_from_def nat_add_distrib)
  show ?thesis
    unfolding parse_structured_def Let_def s2 sum.case e st
    by (simp add: sf split: option.splits)
qed

lemma parse_after_pri_one:
  "parse_after_pri tp msg (CHR ''1'' # r) = parse_structured tp msg (CHR ''1'' # r)"
  by (simp add: parse_after_pri_def index_at_def)

lemma parse_after_pri_other:
  "r \<noteq> [] \<Longrightarrow> hd r \<noteq> CHR ''1'' \<Longrightarrow> parse_after_pri tp msg r = parse_legacy tp msg r"
  by (cases r) (simp_all add: parse_after_pri_def index_at_def)

lemma Atoi_13: "Atoi ''13'' = Some 13"
  by (simp add: Atoi_def)

lemma parse_pri_13:
  "parse_pri tp msg (CHR ''<'' # CHR ''1'' # CHR ''3'' # CHR ''>'' # r1) =
     parse_after_pri tp (msg\<lparr>Facility := 1, Severity := 5\<rparr>) r1"
proof -
  have "parse_pri tp msg (CHR ''<'' # ''13'' @ CHR ''>'' # r1) =
     (case Atoi ''13'' of
        None \<Rightarrow> Inr (msg, CHR ''<'' # ''13'' @ CHR ''>'' # r1)
      | Some pri \<Rightarrow>
          parse_after_pri tp (msg\<lparr>Facility := drop_bit 3 pri, Severity := and pri 7\<rparr>) r1)"
    by (rule parse_pri_shape) simp_all
  then show ?thesis
    by (simp add: Atoi_13 drop_bit_3_div and_7_mod)
qed

lemma parse_structured_data_cases:
  "parse_structured_data msg rem =
     (if rem = [] then Inl IndexOutOfRange
      else if hd rem = CHR ''['' \<and> 1 < IndexRune rem CHR '']''
      then (if IndexRune rem CHR '']'' + 2 \<le> int (length rem)
            then Inr (msg\<lparr>StructuredData := take (nat (IndexRune rem CHR '']'')) rem\<rparr>,
                      drop (nat (IndexRune rem CHR '']'') + 2) rem)
            else Inl SliceBoundsOutOfRange)
      else Inr (msg, rem))"
proof (cases rem)
  case Nil
  then show ?thesis by (simp add: parse_structured_data_def index_at_def)
next
  case (Cons c cs)
  have lt: "IndexRune rem CHR '']'' < int (length rem)" by (rule IndexRune_lt)
  have "nat (IndexRune rem CHR '']'' + 2) = nat (IndexRune rem CHR '']'') + 2"
    if "1 < IndexRune rem CHR '']''"
    using that by (simp add: nat_add_distrib)
  with Cons lt show ?thesis
    by (auto simp: parse_structured_data_def index_at_def slice_to_def slice_from_def Let_def)
qed

lemma parse_pri_decimal:
  assumes "p < 1000"
  shows "parse_pri tp msg (CHR ''<'' # decimal p @ CHR ''>'' # r1) =
     parse_after_pri tp (msg\<lparr>Facility := int p div 8, Severity := int p mod 8\<rparr>) r1"
proof -
  have "1 \<le> length (decimal p)"
    using decimal_nonempty [of p] by (cases "decimal p") simp_all
  with decimal_no_gt [of p] decimal_length [OF assms] Atoi_decimal [OF assms]
  show ?thesis
    by (simp add: parse_pri_shape drop_bit_3_div and_7_mod)
qed

section \<open>The clock value is the Timestamp default and nothing else\<close>

lemma cad_upd:
  "clock_as_default ta tb a b \<Longrightarrow> clock_as_default ta tb (a\<lparr>Timestamp := s\<rparr>) (b\<lparr>Timestamp := s\<rparr>)"
  "clock_as_default ta tb a b \<Longrightarrow> clock_as_default ta tb (a\<lparr>Version := v\<rparr>) (b\<lparr>Version := v\<rparr>)"
  "clock_as_default ta tb a b \<Longrightarrow> clock_as_default ta tb (a\<lparr>Facility := f\<rparr>) (b\<lparr>Facility := f\<rparr>)"
  "clock_as_default ta tb a b \<Longrightarrow> clock_as_default ta tb (a\<lparr>Severity := f\<rparr>) (b\<lparr>Severity := f\<rparr>)"
  "clock_as_default ta tb a b \<Longrightarrow> clock_as_default ta tb (a\<lparr>Hostname := h\<rparr>) (b\<lparr>Hostname := h\<rparr>)"
  "clock_as_default ta tb a b \<Longrightarrow> clock_as_default ta tb (a\<lparr>Tag := g\<rparr>) (b\<lparr>Tag := g\<rparr>)"
  "clock_as_default ta tb a b \<Longrightarrow> clock_as_default ta tb (a\<lparr>StructuredData := d\<rparr>) (b\<lparr>StructuredData := d\<rparr>)"
  "clock_as_default ta tb a b \<Longrightarrow> clock_as_default ta tb (a\<lparr>Message := d\<rparr>) (b\<lparr>Message := d\<rparr>)"
  by (cases a, cases b, auto simp add: clock_as_default_def)+

lemma sd_cad:
  assumes "clock_as_default ta tb a b"
  shows "rel_sum (=) (rel_prod (clock_as_default ta tb) (=))
           (parse_structured_data a rest) (parse_structured_data b rest)"
  using assms
  by (auto simp: parse_structured_data_def Let_def cad_upd split: sum.splits)

lemma fields_cad:
  assumes "clock_as_default ta tb a b"
  shows "rel_prod (clock_as_default ta tb) (=)
           (parse_structured_fields a rest) (parse_structured_fields b rest)"
  using assms
  by (auto simp: parse_structured_fields_def Let_def cad_upd)

lemma structured_cad:
  assumes "clock_as_default ta tb a b"
  shows "rel_sum (=) (rel_prod (clock_as_default ta tb) (=))
           (parse_structured tp a rest) (parse_structured tp b rest)"
proof -
  have "rel_sum (=) (rel_prod (clock_as_default ta tb) (=))
          (case parse_structured_fields (a\<lparr>Version := 1, Timestamp := ts\<rparr>) r of
             (msg2, rest2) \<Rightarrow> parse_structured_data msg2 rest2)
          (case parse_structured_fields (b\<lparr>Version := 1, Timestamp := ts\<rparr>) r of
             (msg2, rest2) \<Rightarrow> parse_structured_data msg2 rest2)" for ts r
    using fields_cad [of ta tb "a\<lparr>Version := 1, Timestamp := ts\<rparr>"
                        "b\<lparr>Version := 1, Timestamp := ts\<rparr>" r] assms
    by (auto simp: cad_upd split: prod.splits intro: sd_cad)
  with assms show ?thesis
    by (auto simp: parse_structured_def Let_def cad_upd split: sum.splits option.splits)
qed

lemma legacy_cad:
  assumes "clock_as_default ta tb a b"
  shows "rel_sum (=) (rel_prod (clock_as_default ta tb) (=))
           (parse_legacy tp a rest) (parse_legacy tp b rest)"
  using assms
  by (auto simp: parse_legacy_def Let_def cad_upd split: sum.splits option.splits)

lemma pri_cad:
  assumes "clock_as_default ta tb a b"
  shows "rel_sum (=) (rel_prod (clock_as_default ta tb) (=))
           (parse_pri tp a rest) (parse_pri tp b rest)"
proof -
  have "rel_sum (=) (rel_prod (clock_as_default ta tb) (=))
           (parse_after_pri tp a' r) (parse_after_pri tp b' r)"
    if "clock_as_default ta tb a' b'" for a' b' r
    using that
    by (auto simp: parse_after_pri_def split: sum.splits intro: structured_cad legacy_cad)
  with assms show ?thesis
    by (auto simp: parse_pri_def Let_def cad_upd split: sum.splits option.splits)
qed

lemma clock_value_is_default_only:
  "fst (ParseSyslog tp c1 buf src) = fst (ParseSyslog tp c2 buf src)
   \<or> (\<exists>m. fst (ParseSyslog tp c1 buf src) = Inr m \<and> Timestamp m = now_utc c1
          \<and> fst (ParseSyslog tp c2 buf src) = Inr (m\<lparr>Timestamp := now_utc c2\<rparr>))"
proof -
  let ?m = "\<lambda>c. \<lparr>Version = 0, Facility = 0, Severity = 5, Timestamp = now_utc c,
              Hostname = src, Tag = [], StructuredData = [], Message = [], Source = src\<rparr>"
  have "clock_as_default (now_utc c1) (now_utc c2) (?m c1) (?m c2)"
    by (simp add: clock_as_default_def)
  from pri_cad [OF this, of tp buf]
  have "rel_sum (=) (clock_as_default (now_utc c1) (now_utc c2))
          (fst (ParseSyslog tp c1 buf src)) (fst (ParseSyslog tp c2 buf src))"
    by (auto simp: ParseSyslog_fst cad_upd elim!: rel_sum.cases)
  then show ?thesis
    by (auto simp: clock_as_default_def elim!: rel_sum.cases)
qed

lemma structured_parsed_no_clock:
  assumes "CHR ''>'' \<notin> set ds" and "1 \<le> length ds" and "length ds \<le> 3"
    and "Atoi ds = Some pri" and "CHR '' '' \<notin> set tok"
    and "(case Parse_RFC3339Nano tp tok of Some t \<Rightarrow> Some t
          | None \<Rightarrow> Parse_RFC3339 tp tok) = Some ts"
  shows "fst (ParseSyslog tp c1
           (CHR ''<'' # ds @ CHR ''>'' # CHR ''1'' # c # tok @ CHR '' '' # rem) src) =
         fst (ParseSyslog tp c2
           (CHR ''<'' # ds @ CHR ''>'' # CHR ''1'' # c # tok @ CHR '' '' # rem) src)"
  using assms(1-4,6)
  by (simp add: ParseSyslog_fst parse_pri_shape parse_after_pri_one
        parse_structured_shape [OF assms(5)])

lemma legacy_run:
  assumes "CHR ''>'' \<notin> set ds" and "1 \<le> length ds" and "length ds \<le> 3"
    and "Atoi ds = Some pri"
    and "r1 \<noteq> []" and "hd r1 \<noteq> CHR ''1''"
  shows "fst (ParseSyslog tp clk (CHR ''<'' # ds @ CHR ''>'' # r1) src) =
     (case parse_legacy tp \<lparr>Version = 0, Facility = pri div 8, Severity = pri mod 8,
                Timestamp = now_utc clk, Hostname = src, Tag = [], StructuredData = [],
                Message = [], Source = src\<rparr> r1 of
        Inl e \<Rightarrow> Inl e | Inr (m', rest) \<Rightarrow> Inr (m'\<lparr>Message := rest\<rparr>))"
  using assms
  by (simp add: ParseSyslog_fst parse_pri_shape parse_after_pri_other drop_bit_3_div and_7_mod)

lemma legacy_parsed_no_clock:
  assumes "CHR ''>'' \<notin> set ds" and "1 \<le> length ds" and "length ds \<le> 3"
    and "Atoi ds = Some pri"
    and "r1 \<noteq> []" and "hd r1 \<noteq> CHR ''1''"
    and "Parse_Stamp tp (take 15 r1) = Some ts"
  shows "fst (ParseSyslog tp c1 (CHR ''<'' # ds @ CHR ''>'' # r1) src) =
         fst (ParseSyslog tp c2 (CHR ''<'' # ds @ CHR ''>'' # r1) src)"
  using assms(7)
  by (simp add: legacy_run [OF assms(1-6)] parse_legacy_def slice_to_def slice_from_def Let_def)

lemma structured_parsed_Timestamp:
  assumes "CHR ''>'' \<notin> set ds" and "1 \<le> length ds" and "length ds \<le> 3"
    and "Atoi ds = Some pri" and "CHR '' '' \<notin> set tok"
    and "(case Parse_RFC3339Nano tp tok of Some t \<Rightarrow> Some t
          | None \<Rightarrow> Parse_RFC3339 tp tok) = Some ts"
    and "fst (ParseSyslog tp clk
           (CHR ''<'' # ds @ CHR ''>'' # CHR ''1'' # c # tok @ CHR '' '' # rem) src) = Inr m"
  shows "Timestamp m = ts"
proof -
  let ?m0 = "\<lparr>Version = 0, Facility = 0, Severity = 5, Timestamp = now_utc clk,
              Hostname = src, Tag = [], StructuredData = [], Message = [], Source = src\<rparr>"
  let ?m1 = "?m0\<lparr>Facility := drop_bit 3 pri, Severity := and pri 7\<rparr>"
  from ParseSyslog_returns [OF assms(7)] obtain msg' rest where
    p: "parse_pri tp ?m0 (CHR ''<'' # ds @ CHR ''>'' # CHR ''1'' # c # tok @ CHR '' '' # rem)
          = Inr (msg', rest)"
    and m: "m = msg'\<lparr>Message := rest\<rparr>"
    by blast
  from p assms(1-4) have
    "parse_structured tp ?m1 (CHR ''1'' # c # tok @ CHR '' '' # rem) = Inr (msg', rest)"
    by (simp add: parse_pri_shape parse_after_pri_one)
  with assms(6) have
    "(case parse_structured_fields (?m1\<lparr>Version := 1, Timestamp := ts\<rparr>) rem of
        (msg2, rest2) \<Rightarrow> parse_structured_data msg2 rest2) = Inr (msg', rest)"
    by (simp add: parse_structured_shape [OF assms(5)])
  then obtain m2 r2 where
    f: "parse_structured_fields (?m1\<lparr>Version := 1, Timestamp := ts\<rparr>) rem = (m2, r2)"
    and d: "parse_structured_data m2 r2 = Inr (msg', rest)"
    by (auto split: prod.splits)
  from parse_structured_fields_frame [OF f]
  have "m2 = ?m1\<lparr>Version := 1, Timestamp := ts, Hostname := Hostname m2, Tag := Tag m2\<rparr>"
    by simp
  then have "Timestamp m2 = ts"
    by (cases m2) simp
  moreover from parse_structured_data_frame [OF d]
  have "msg' = m2\<lparr>StructuredData := StructuredData msg'\<rparr>" by simp
  then have "Timestamp msg' = Timestamp m2"
    by (cases m2, cases msg') simp
  ultimately show ?thesis using m by simp
qed

lemma legacy_parsed_Timestamp:
  assumes "CHR ''>'' \<notin> set ds" and "1 \<le> length ds" and "length ds \<le> 3"
    and "Atoi ds = Some pri"
    and "r1 \<noteq> []" and "hd r1 \<noteq> CHR ''1''"
    and "Parse_Stamp tp (take 15 r1) = Some ts"
    and "fst (ParseSyslog tp clk (CHR ''<'' # ds @ CHR ''>'' # r1) src) = Inr m"
  shows "Timestamp m = ts"
  using assms(7,8)
  by (auto simp: legacy_run [OF assms(1-6)] parse_legacy_def slice_to_def slice_from_def Let_def
           split: if_splits)

section \<open>The claims\<close>

text \<open>
  C10. Whenever ParseSyslog returns a message, its Message field is a contiguous suffix of
  the input buffer (possibly the whole buffer): on every path the cursor only moves
  forward through the buffer, and no message text is rewritten, reordered or inserted.
\<close>

theorem Message_is_suffix:
  assumes "fst (ParseSyslog tp clk buf source) = Inr m"
  shows "suffix (Message m) buf"
proof -
  from assms obtain msg' rest where
    p: "parse_pri tp \<lparr>Version = 0, Facility = 0, Severity = 5, Timestamp = now_utc clk,
                       Hostname = source, Tag = [], StructuredData = [],
                       Message = [], Source = source\<rparr> buf = Inr (msg', rest)"
    and m: "m = msg'\<lparr>Message := rest\<rparr>"
    by (auto simp: ParseSyslog_def time_Now_def Let_def split: sum.splits prod.splits)
  from parse_pri_suffix [OF p] m show ?thesis by simp
qed

theorem Message_is_suffix_witness:
  "fst (ParseSyslog test_time test_clock ''<13>Dec 15 11:55:02 host user: message''
          ''127.0.0.1'')
     = Inr \<lparr>Version = 0, Facility = 1, Severity = 5,
             Timestamp = ''0000-12-15 11:55:02 +0000 UTC'', Hostname = ''host'',
             Tag = ''user:'', StructuredData = [], Message = ''message'',
             Source = ''127.0.0.1''\<rparr>
   \<and> suffix ''message'' ''<13>Dec 15 11:55:02 host user: message''"
proof -
  have run: "fst (ParseSyslog test_time test_clock ''<13>Dec 15 11:55:02 host user: message''
                    ''127.0.0.1'')
     = Inr \<lparr>Version = 0, Facility = 1, Severity = 5,
             Timestamp = ''0000-12-15 11:55:02 +0000 UTC'', Hostname = ''host'',
             Tag = ''user:'', StructuredData = [], Message = ''message'',
             Source = ''127.0.0.1''\<rparr>"
    by code_simp
  from Message_is_suffix [OF run] run show ?thesis by simp
qed

text \<open>
  C1. The claim is that ParseSyslog returns a message for every buffer, the empty buffer,
  a buffer that ends right after the PRI and a buffer shorter than the legacy stamp
  included. The code indexes and slices without looking at the length: on the empty
  buffer \<open>rest[0]\<close> at line 52 panics, on \<open><13>\<close> \<open>rest[0]\<close> at line 60 panics, on
  \<open><13>1\<close> \<open>rest[2:]\<close> at line 62 panics, and on \<open><13>Dec 15\<close> \<open>rest[:15]\<close> at
  line 95 panics, whatever the time package, the clock and the source are.
\<close>

theorem ParseSyslog_panics:
  "fst (ParseSyslog tp clk [] src) = Inl IndexOutOfRange
   \<and> fst (ParseSyslog tp clk ''<13>'' src) = Inl IndexOutOfRange
   \<and> fst (ParseSyslog tp clk ''<13>1'' src) = Inl SliceBoundsOutOfRange
   \<and> fst (ParseSyslog tp clk ''<13>Dec 15'' src) = Inl SliceBoundsOutOfRange"
  by (simp add: eval_defs)

text \<open>
  C2. As stated the claim fails: the digits go through \<open>strconv.Atoi\<close> and nothing
  bounds the number, so \<open><999>\<close> gives Facility 124.
\<close>

theorem facility_above_23:
  "fst (ParseSyslog test_time test_clock ''<999>1x'' ''127.0.0.1'') =
     Inr \<lparr>Version = 1, Facility = 124, Severity = 7,
           Timestamp = ''2015-12-15 19:54:41 +0000 UTC'', Hostname = ''127.0.0.1'',
           Tag = [], StructuredData = [], Message = [], Source = ''127.0.0.1''\<rparr>"
  by code_simp

text \<open>
  C2, amended. Whenever ParseSyslog returns a message, Version is 0 or 1; and when the
  PRI stage has succeeded (a \<open><\<close> at position 0, the first \<open>>\<close> at index 2 to 4, and
  between them one to three bytes that \<open>strconv.Atoi\<close> accepts as the number \<open>pri\<close>),
  Facility is \<open>pri div 8\<close> and Severity is \<open>pri mod 8\<close>, so Severity is in [0,7],
  Facility is in [-13,124], and Facility is in [0,23] when \<open>pri\<close> is in [0,191].
\<close>

theorem pri_field_ranges:
  assumes "fst (ParseSyslog tp clk buf src) = Inr m"
  shows "(Version m = 0 \<or> Version m = 1) \<and>
         (buf = CHR ''<'' # ds @ CHR ''>'' # r1 \<and> CHR ''>'' \<notin> set ds
            \<and> 1 \<le> length ds \<and> length ds \<le> 3 \<and> Atoi ds = Some pri \<longrightarrow>
          Facility m = pri div 8 \<and> Severity m = pri mod 8
            \<and> 0 \<le> Severity m \<and> Severity m \<le> 7
            \<and> - 13 \<le> Facility m \<and> Facility m \<le> 124
            \<and> (0 \<le> pri \<and> pri \<le> 191 \<longrightarrow> 0 \<le> Facility m \<and> Facility m \<le> 23))"
proof -
  let ?m0 = "\<lparr>Version = 0, Facility = 0, Severity = 5, Timestamp = now_utc clk,
              Hostname = src, Tag = [], StructuredData = [], Message = [], Source = src\<rparr>"
  from ParseSyslog_returns [OF assms] obtain msg' rest where
    p: "parse_pri tp ?m0 buf = Inr (msg', rest)" and m: "m = msg'\<lparr>Message := rest\<rparr>"
    by blast
  have v: "Version m = 0 \<or> Version m = 1"
    using parse_pri_cases [OF p]
  proof
    assume "msg' = ?m0 \<and> rest = buf"
    with m show ?thesis by simp
  next
    assume "\<exists>pri r1. slice_from buf (IndexRune buf CHR ''>'' + 1) = Inr r1 \<and>
       parse_after_pri tp (?m0\<lparr>Facility := drop_bit 3 pri, Severity := and pri 7\<rparr>) r1
         = Inr (msg', rest)"
    then obtain q r where
      "parse_after_pri tp (?m0\<lparr>Facility := drop_bit 3 q, Severity := and q 7\<rparr>) r
         = Inr (msg', rest)"
      by blast
    from parse_after_pri_frame [OF this] m show ?thesis
      by (simp split: if_splits)
  qed
  have r: "Facility m = pri div 8 \<and> Severity m = pri mod 8
            \<and> 0 \<le> Severity m \<and> Severity m \<le> 7
            \<and> - 13 \<le> Facility m \<and> Facility m \<le> 124
            \<and> (0 \<le> pri \<and> pri \<le> 191 \<longrightarrow> 0 \<le> Facility m \<and> Facility m \<le> 23)"
    if shape: "buf = CHR ''<'' # ds @ CHR ''>'' # r1" "CHR ''>'' \<notin> set ds"
       "1 \<le> length ds" "length ds \<le> 3" "Atoi ds = Some pri"
  proof -
    from p shape have
      "parse_after_pri tp (?m0\<lparr>Facility := drop_bit 3 pri, Severity := and pri 7\<rparr>) r1
         = Inr (msg', rest)"
      by (simp add: parse_pri_shape)
    from parse_after_pri_frame [OF this] m have
      f: "Facility m = pri div 8" and s: "Severity m = pri mod 8"
      by (simp_all add: drop_bit_3_div and_7_mod)
    from Atoi_bounds [OF shape(5) shape(4)] have b: "- 99 \<le> pri" "pri \<le> 999" by simp_all
    from f s b show ?thesis by auto
  qed
  from v r show ?thesis by blast
qed

theorem pri_field_ranges_witness:
  "fst (ParseSyslog test_time test_clock ''<165>1x'' ''10.0.0.7'') =
     Inr \<lparr>Version = 1, Facility = 20, Severity = 5,
           Timestamp = ''2015-12-15 19:54:41 +0000 UTC'', Hostname = ''10.0.0.7'',
           Tag = [], StructuredData = [], Message = [], Source = ''10.0.0.7''\<rparr>
   \<and> Atoi ''165'' = Some 165 \<and> (20::int) = 165 div 8 \<and> (5::int) = 165 mod 8"
proof -
  have run: "fst (ParseSyslog test_time test_clock ''<165>1x'' ''10.0.0.7'') =
     Inr \<lparr>Version = 1, Facility = 20, Severity = 5,
           Timestamp = ''2015-12-15 19:54:41 +0000 UTC'', Hostname = ''10.0.0.7'',
           Tag = [], StructuredData = [], Message = [], Source = ''10.0.0.7''\<rparr>"
    by code_simp
  have num: "Atoi ''165'' = Some 165" by (simp add: Atoi_def)
  from pri_field_ranges [OF run, of "''165''" "''1x''" 165] num run
  show ?thesis by simp
qed

text \<open>
  C3. As stated the claim fails: line 60 looks at one byte only, and line 62 skips the
  byte after it unseen. After \<open><13>\<close>, a \<open>1\<close> followed by \<open>x\<close> selects the structured
  grammar.
\<close>

theorem one_then_nonspace_is_structured:
  "fst (ParseSyslog test_time test_clock ''<13>1x'' ''127.0.0.1'') =
     Inr \<lparr>Version = 1, Facility = 1, Severity = 5,
           Timestamp = ''2015-12-15 19:54:41 +0000 UTC'', Hostname = ''127.0.0.1'',
           Tag = [], StructuredData = [], Message = [], Source = ''127.0.0.1''\<rparr>"
  by code_simp

text \<open>
  C3, amended. After a successful PRI stage the next byte alone selects the grammar: if
  it is \<open>1\<close> the structured grammar runs on the remainder, whatever byte follows the
  \<open>1\<close> (that byte is skipped without being looked at, so the result is the one for
  \<open>1\<close> followed by a space), and a message that is returned has Version 1; for any
  other next byte the legacy grammar runs on the remainder and a message that is
  returned has Version 0. With nothing after the PRI the call panics.
\<close>

theorem grammar_dispatch:
  assumes "CHR ''>'' \<notin> set ds" and "1 \<le> length ds" and "length ds \<le> 3"
    and "Atoi ds = Some pri"
  shows "fst (ParseSyslog tp clk (CHR ''<'' # ds @ CHR ''>'' # r1) src) =
     (case r1 of
        [] \<Rightarrow> Inl IndexOutOfRange
      | b # t \<Rightarrow>
          (case (if b = CHR ''1''
                 then parse_structured tp
                        \<lparr>Version = 0, Facility = pri div 8, Severity = pri mod 8,
                          Timestamp = now_utc clk, Hostname = src, Tag = [],
                          StructuredData = [], Message = [], Source = src\<rparr> r1
                 else parse_legacy tp
                        \<lparr>Version = 0, Facility = pri div 8, Severity = pri mod 8,
                          Timestamp = now_utc clk, Hostname = src, Tag = [],
                          StructuredData = [], Message = [], Source = src\<rparr> r1) of
             Inl e \<Rightarrow> Inl e
           | Inr (m', rest) \<Rightarrow> Inr (m'\<lparr>Message := rest\<rparr>)))
   \<and> (fst (ParseSyslog tp clk (CHR ''<'' # ds @ CHR ''>'' # r1) src) = Inr m \<longrightarrow>
        r1 \<noteq> [] \<and> Version m = (if hd r1 = CHR ''1'' then 1 else 0))
   \<and> fst (ParseSyslog tp clk (CHR ''<'' # ds @ CHR ''>'' # CHR ''1'' # c # t1) src) =
       fst (ParseSyslog tp clk (CHR ''<'' # ds @ CHR ''>'' # CHR ''1'' # CHR '' '' # t1) src)"
proof -
  let ?m0 = "\<lparr>Version = 0, Facility = 0, Severity = 5, Timestamp = now_utc clk,
              Hostname = src, Tag = [], StructuredData = [], Message = [], Source = src\<rparr>"
  let ?m1 = "?m0\<lparr>Facility := drop_bit 3 pri, Severity := and pri 7\<rparr>"
  have pp: "parse_pri tp ?m0 (CHR ''<'' # ds @ CHR ''>'' # r) = parse_after_pri tp ?m1 r" for r
    using assms by (simp add: parse_pri_shape)
  have first: "fst (ParseSyslog tp clk (CHR ''<'' # ds @ CHR ''>'' # r1) src) =
     (case r1 of
        [] \<Rightarrow> Inl IndexOutOfRange
      | b # t \<Rightarrow>
          (case (if b = CHR ''1''
                 then parse_structured tp
                        \<lparr>Version = 0, Facility = pri div 8, Severity = pri mod 8,
                          Timestamp = now_utc clk, Hostname = src, Tag = [],
                          StructuredData = [], Message = [], Source = src\<rparr> r1
                 else parse_legacy tp
                        \<lparr>Version = 0, Facility = pri div 8, Severity = pri mod 8,
                          Timestamp = now_utc clk, Hostname = src, Tag = [],
                          StructuredData = [], Message = [], Source = src\<rparr> r1) of
             Inl e \<Rightarrow> Inl e
           | Inr (m', rest) \<Rightarrow> Inr (m'\<lparr>Message := rest\<rparr>)))"
    by (cases r1)
       (simp_all add: ParseSyslog_fst pp parse_after_pri_def index_at_def
          drop_bit_3_div and_7_mod)
  have second: "r1 \<noteq> [] \<and> Version m = (if hd r1 = CHR ''1'' then 1 else 0)"
    if ret: "fst (ParseSyslog tp clk (CHR ''<'' # ds @ CHR ''>'' # r1) src) = Inr m"
  proof -
    from ParseSyslog_returns [OF ret] obtain msg' rest where
      p: "parse_pri tp ?m0 (CHR ''<'' # ds @ CHR ''>'' # r1) = Inr (msg', rest)"
      and m: "m = msg'\<lparr>Message := rest\<rparr>"
      by blast
    from p have a: "parse_after_pri tp ?m1 r1 = Inr (msg', rest)"
      by (simp add: pp)
    then have ne: "r1 \<noteq> []"
      by (auto simp: parse_after_pri_def index_at_def)
    then have "index_at r1 0 = Inr (hd r1)"
      by (simp add: index_at_def hd_conv_nth)
    with parse_after_pri_frame [OF a] m ne show ?thesis by simp
  qed
  have skip: "parse_structured tp msg (CHR ''1'' # c # t1) =
              parse_structured tp msg (CHR ''1'' # CHR '' '' # t1)" for msg
    by (simp add: parse_structured_def slice_from_def numeral_2_eq_2)
  have third: "fst (ParseSyslog tp clk (CHR ''<'' # ds @ CHR ''>'' # CHR ''1'' # c # t1) src) =
       fst (ParseSyslog tp clk (CHR ''<'' # ds @ CHR ''>'' # CHR ''1'' # CHR '' '' # t1) src)"
    by (simp only: ParseSyslog_fst pp parse_after_pri_one skip)
  from first second third show ?thesis by blast
qed

theorem grammar_dispatch_witness:
  "Atoi ''13'' = Some 13
   \<and> fst (ParseSyslog test_time test_clock ''<13>1x2015-12-15T11:54:41.946675-08:00 h a p m text''
          ''127.0.0.1'') =
     Inr \<lparr>Version = 1, Facility = 1, Severity = 5,
           Timestamp = ''2015-12-15 11:54:41.946675 -0800 -0800'', Hostname = ''h'',
           Tag = ''a p m'', StructuredData = [], Message = ''text'', Source = ''127.0.0.1''\<rparr>
   \<and> fst (ParseSyslog test_time test_clock ''<13>1 2015-12-15T11:54:41.946675-08:00 h a p m text''
          ''127.0.0.1'') =
     Inr \<lparr>Version = 1, Facility = 1, Severity = 5,
           Timestamp = ''2015-12-15 11:54:41.946675 -0800 -0800'', Hostname = ''h'',
           Tag = ''a p m'', StructuredData = [], Message = ''text'', Source = ''127.0.0.1''\<rparr>
   \<and> hd ''1x2015-12-15T11:54:41.946675-08:00 h a p m text'' = CHR ''1''"
proof -
  let ?t = "''2015-12-15T11:54:41.946675-08:00 h a p m text''"
  have pri: "CHR ''>'' \<notin> set ''13''" "1 \<le> length ''13''" "length ''13'' \<le> 3"
    by simp_all
  have run: "fst (ParseSyslog test_time test_clock
                    (CHR ''<'' # ''13'' @ CHR ''>'' # CHR ''1'' # CHR '' '' # ?t) ''127.0.0.1'') =
     Inr \<lparr>Version = 1, Facility = 1, Severity = 5,
           Timestamp = ''2015-12-15 11:54:41.946675 -0800 -0800'', Hostname = ''h'',
           Tag = ''a p m'', StructuredData = [], Message = ''text'', Source = ''127.0.0.1''\<rparr>"
    by code_simp
  let ?m = "\<lparr>Version = 1, Facility = 1, Severity = 5,
           Timestamp = ''2015-12-15 11:54:41.946675 -0800 -0800'', Hostname = ''h'',
           Tag = ''a p m'', StructuredData = [], Message = ''text'',
           Source = ''127.0.0.1''\<rparr>"
  note gd = grammar_dispatch [OF pri Atoi_13, of test_time test_clock
         "CHR ''1'' # CHR ''x'' # ?t" "''127.0.0.1''" ?m "CHR ''x''" ?t]
  from gd have same: "fst (ParseSyslog test_time test_clock
               (CHR ''<'' # ''13'' @ CHR ''>'' # CHR ''1'' # CHR ''x'' # ?t) ''127.0.0.1'') =
        fst (ParseSyslog test_time test_clock
               (CHR ''<'' # ''13'' @ CHR ''>'' # CHR ''1'' # CHR '' '' # ?t) ''127.0.0.1'')"
    by blast
  with run have ret: "fst (ParseSyslog test_time test_clock
               (CHR ''<'' # ''13'' @ CHR ''>'' # CHR ''1'' # CHR ''x'' # ?t) ''127.0.0.1'')
               = Inr ?m"
    by simp
  with gd have "Version ?m = (if hd (CHR ''1'' # CHR ''x'' # ?t) = CHR ''1'' then 1 else 0)"
    by blast
  with run ret Atoi_13 show ?thesis by simp
qed

text \<open>
  C4. As stated the claim fails: on its own example Hostname is not empty. The
  initialiser (lines 40 to 47, "fill in a few defaults") sets Hostname to the source
  address, and no path of ParseSyslog ever clears it.
\<close>

theorem hostname_empty_counterexample:
  "fst (ParseSyslog test_time test_clock ''<13>1 - host.domain.com user - - - message''
          ''127.0.0.1'') =
     Inr \<lparr>Version = 1, Facility = 1, Severity = 5,
           Timestamp = ''2015-12-15 19:54:41 +0000 UTC'',
           Hostname = ''127.0.0.1'', Tag = [], StructuredData = [],
           Message = ''- host.domain.com user - - - message'', Source = ''127.0.0.1''\<rparr>"
  by code_simp

text \<open>
  C4, amended. In the structured grammar, when the timestamp token fails both timestamp
  layouts (as the nil placeholder \<open>-\<close> does), parsing abandons the grammar at that
  stage: Timestamp keeps the clock default, Hostname keeps its default, the source
  address, Tag is empty, and Message is the remainder including the timestamp token.
\<close>

theorem failed_timestamp_keeps_source_hostname:
  assumes "CHR ''>'' \<notin> set ds" and "1 \<le> length ds" and "length ds \<le> 3"
    and "Atoi ds = Some pri"
    and "CHR '' '' \<notin> set tok"
    and "Parse_RFC3339Nano tp tok = None" and "Parse_RFC3339 tp tok = None"
  shows "fst (ParseSyslog tp clk
           (CHR ''<'' # ds @ CHR ''>'' # CHR ''1'' # c # tok @ CHR '' '' # tail) src) =
     Inr \<lparr>Version = 1, Facility = pri div 8, Severity = pri mod 8, Timestamp = now_utc clk,
           Hostname = src, Tag = [], StructuredData = [],
           Message = tok @ CHR '' '' # tail, Source = src\<rparr>"
proof -
  have "parse_structured tp msg (CHR ''1'' # c # tok @ CHR '' '' # tail) =
          Inr (msg\<lparr>Version := 1\<rparr>, tok @ CHR '' '' # tail)" for msg
    using parse_structured_shape [OF assms(5)] assms(6,7) by simp
  with assms(1-4) show ?thesis
    by (simp add: ParseSyslog_fst parse_pri_shape parse_after_pri_one
          drop_bit_3_div and_7_mod)
qed

theorem failed_timestamp_keeps_source_hostname_witness:
  "Parse_RFC3339Nano test_time ''yesterday'' = None
   \<and> Parse_RFC3339 test_time ''yesterday'' = None
   \<and> Parse_RFC3339Nano test_time ''-'' = None \<and> Parse_RFC3339 test_time ''-'' = None
   \<and> fst (ParseSyslog test_time test_clock ''<165>1 yesterday gw app 7 - - up'' ''10.0.0.7'') =
     Inr \<lparr>Version = 1, Facility = 20, Severity = 5,
           Timestamp = ''2015-12-15 19:54:41 +0000 UTC'',
           Hostname = ''10.0.0.7'', Tag = [], StructuredData = [],
           Message = ''yesterday gw app 7 - - up'', Source = ''10.0.0.7''\<rparr>
   \<and> fst (ParseSyslog test_time test_clock ''<165>1 - gw app 7 - - up'' ''10.0.0.7'') =
     Inr \<lparr>Version = 1, Facility = 20, Severity = 5,
           Timestamp = ''2015-12-15 19:54:41 +0000 UTC'',
           Hostname = ''10.0.0.7'', Tag = [], StructuredData = [],
           Message = ''- gw app 7 - - up'', Source = ''10.0.0.7''\<rparr>"
proof -
  have pri: "CHR ''>'' \<notin> set ''165''" "1 \<le> length ''165''" "length ''165'' \<le> 3"
    "Atoi ''165'' = Some 165"
    by (simp_all add: Atoi_def)
  have t1: "CHR '' '' \<notin> set ''yesterday''"
    "Parse_RFC3339Nano test_time ''yesterday'' = None"
    "Parse_RFC3339 test_time ''yesterday'' = None"
    by (simp_all add: test_time_def)
  have t2: "CHR '' '' \<notin> set ''-''"
    "Parse_RFC3339Nano test_time ''-'' = None" "Parse_RFC3339 test_time ''-'' = None"
    by (simp_all add: test_time_def)
  from failed_timestamp_keeps_source_hostname
         [OF pri t1, of test_clock "CHR '' ''" "''gw app 7 - - up''" "''10.0.0.7''"]
       failed_timestamp_keeps_source_hostname
         [OF pri t2, of test_clock "CHR '' ''" "''gw app 7 - - up''" "''10.0.0.7''"]
       t1 t2
  show ?thesis by (simp add: test_clock_def)
qed

text \<open>
  C8. The claim is that every buffer that does not begin with \<open><\<close> gives Facility 0,
  Severity 5, Message the whole buffer and Hostname the source. That is what ParseSyslog
  returns for every such buffer but the empty one, where \<open>rest[0]\<close> at line 52 panics.
\<close>

theorem no_pri_defaults:
  assumes "\<not> prefix ''<'' buf"
  shows "fst (ParseSyslog tp clk buf src) =
     (if buf = [] then Inl IndexOutOfRange
      else Inr \<lparr>Version = 0, Facility = 0, Severity = 5, Timestamp = now_utc clk,
                 Hostname = src, Tag = [], StructuredData = [],
                 Message = buf, Source = src\<rparr>)"
proof (cases buf)
  case Nil
  then show ?thesis by (simp add: ParseSyslog_fst parse_pri_def index_at_def)
next
  case (Cons c cs)
  with assms have "c \<noteq> CHR ''<''" by auto
  with Cons show ?thesis by (simp add: ParseSyslog_fst parse_pri_def index_at_def)
qed

theorem no_pri_defaults_witness:
  "\<not> prefix ''<'' [] \<and> fst (ParseSyslog test_time test_clock [] ''127.0.0.1'') = Inl IndexOutOfRange
   \<and> \<not> prefix ''<'' ''hello'' \<and> fst (ParseSyslog test_time test_clock ''hello'' ''127.0.0.1'') =
      Inr \<lparr>Version = 0, Facility = 0, Severity = 5,
           Timestamp = ''2015-12-15 19:54:41 +0000 UTC'',
           Hostname = ''127.0.0.1'', Tag = [], StructuredData = [],
           Message = ''hello'', Source = ''127.0.0.1''\<rparr>"
proof -
  have a: "\<not> prefix ''<'' []" by simp
  have b: "\<not> prefix ''<'' ''hello''" by simp
  from no_pri_defaults [OF a, of test_time test_clock "''127.0.0.1''"]
       no_pri_defaults [OF b, of test_time test_clock "''127.0.0.1''"] a b
  show ?thesis by (simp add: test_clock_def)
qed

text \<open>
  C9. As stated the claim fails twice. \<open>time.Now\<close> is called at line 44, when the
  defaults are filled in and before anything is parsed, so the clock is consulted also on
  a run that takes its Timestamp from the buffer. And the clock is not the only external
  input: \<open>time.Parse\<close> and \<open>String\<close> name the zone after the local time zone of the
  process, so the same buffer, source and clock give another Timestamp under another
  zone setting.
\<close>

theorem clock_read_although_timestamp_parsed:
  "ParseSyslog test_time test_clock
     ''<13>1 2015-12-15T11:54:41.946675-08:00 host.domain.com user - - - message''
     ''127.0.0.1'' =
   (Inr \<lparr>Version = 1, Facility = 1, Severity = 5,
          Timestamp = ''2015-12-15 11:54:41.946675 -0800 -0800'',
          Hostname = ''host.domain.com'', Tag = ''user - -'', StructuredData = [],
          Message = ''- message'', Source = ''127.0.0.1''\<rparr>,
    \<lparr>now_utc = ''2015-12-15 19:54:41 +0000 UTC'', consulted = 1\<rparr>)
   \<and> ParseSyslog test_time_pst test_clock
     ''<13>1 2015-12-15T11:54:41.946675-08:00 host.domain.com user - - - message''
     ''127.0.0.1'' =
   (Inr \<lparr>Version = 1, Facility = 1, Severity = 5,
          Timestamp = ''2015-12-15 11:54:41.946675 -0800 PST'',
          Hostname = ''host.domain.com'', Tag = ''user - -'', StructuredData = [],
          Message = ''- message'', Source = ''127.0.0.1''\<rparr>,
    \<lparr>now_utc = ''2015-12-15 19:54:41 +0000 UTC'', consulted = 1\<rparr>)"
  by code_simp

text \<open>
  C9, amended. Two runs on the same buffer and source, with the same behaviour of the
  time package (which depends on the local time zone of the process, a second external
  input) and with clocks that show the same time, give the same result. Every run,
  whether or not it parses a timestamp from the buffer and whether or not it returns,
  consults the clock exactly once. What the clock shows is used as the Timestamp default
  and for nothing else: two runs under different clocks give the same result, or the
  first returns a message whose Timestamp is its clock's value and the second returns
  that message with its own clock's value as Timestamp; and on a buffer whose timestamp
  parses, in the structured or in the legacy grammar, the result is the same under every
  clock and a returned message carries the parsed Timestamp.
\<close>

theorem clock_read_once_on_every_run:
  "(now_utc c1 = now_utc c2 \<longrightarrow>
      fst (ParseSyslog tp c1 buf src) = fst (ParseSyslog tp c2 buf src))
   \<and> snd (ParseSyslog tp c1 buf src) = c1\<lparr>consulted := consulted c1 + 1\<rparr>
   \<and> (fst (ParseSyslog tp c1 buf src) = fst (ParseSyslog tp c2 buf src)
       \<or> (\<exists>m. fst (ParseSyslog tp c1 buf src) = Inr m \<and> Timestamp m = now_utc c1
              \<and> fst (ParseSyslog tp c2 buf src) = Inr (m\<lparr>Timestamp := now_utc c2\<rparr>)))
   \<and> (CHR ''>'' \<notin> set ds \<and> 1 \<le> length ds \<and> length ds \<le> 3 \<and> Atoi ds = Some pri
       \<and> CHR '' '' \<notin> set tok
       \<and> (case Parse_RFC3339Nano tp tok of Some t \<Rightarrow> Some t
            | None \<Rightarrow> Parse_RFC3339 tp tok) = Some ts \<longrightarrow>
         fst (ParseSyslog tp c1
               (CHR ''<'' # ds @ CHR ''>'' # CHR ''1'' # c # tok @ CHR '' '' # rem) src) =
         fst (ParseSyslog tp c2
               (CHR ''<'' # ds @ CHR ''>'' # CHR ''1'' # c # tok @ CHR '' '' # rem) src)
         \<and> (fst (ParseSyslog tp c1
               (CHR ''<'' # ds @ CHR ''>'' # CHR ''1'' # c # tok @ CHR '' '' # rem) src) = Inr m1
              \<longrightarrow> Timestamp m1 = ts))
   \<and> (CHR ''>'' \<notin> set ds \<and> 1 \<le> length ds \<and> length ds \<le> 3 \<and> Atoi ds = Some pri
       \<and> r1 \<noteq> [] \<and> hd r1 \<noteq> CHR ''1'' \<and> Parse_Stamp tp (take 15 r1) = Some ts' \<longrightarrow>
         fst (ParseSyslog tp c1 (CHR ''<'' # ds @ CHR ''>'' # r1) src) =
         fst (ParseSyslog tp c2 (CHR ''<'' # ds @ CHR ''>'' # r1) src)
         \<and> (fst (ParseSyslog tp c1 (CHR ''<'' # ds @ CHR ''>'' # r1) src) = Inr m2
              \<longrightarrow> Timestamp m2 = ts'))"
proof -
  have a: "now_utc c1 = now_utc c2 \<longrightarrow>
      fst (ParseSyslog tp c1 buf src) = fst (ParseSyslog tp c2 buf src)"
    by (simp add: ParseSyslog_fst)
  have b: "snd (ParseSyslog tp c1 buf src) = c1\<lparr>consulted := consulted c1 + 1\<rparr>"
    by (simp add: ParseSyslog_def time_Now_def Let_def)
  note c = clock_value_is_default_only [of tp c1 buf src c2]
  have d: "fst (ParseSyslog tp c1
               (CHR ''<'' # ds @ CHR ''>'' # CHR ''1'' # c # tok @ CHR '' '' # rem) src) =
         fst (ParseSyslog tp c2
               (CHR ''<'' # ds @ CHR ''>'' # CHR ''1'' # c # tok @ CHR '' '' # rem) src)
         \<and> (fst (ParseSyslog tp c1
               (CHR ''<'' # ds @ CHR ''>'' # CHR ''1'' # c # tok @ CHR '' '' # rem) src) = Inr m1
              \<longrightarrow> Timestamp m1 = ts)"
    if "CHR ''>'' \<notin> set ds" "1 \<le> length ds" "length ds \<le> 3" "Atoi ds = Some pri"
       "CHR '' '' \<notin> set tok"
       "(case Parse_RFC3339Nano tp tok of Some t \<Rightarrow> Some t
            | None \<Rightarrow> Parse_RFC3339 tp tok) = Some ts"
    using structured_parsed_no_clock [OF that] structured_parsed_Timestamp [OF that]
    by blast
  have e: "fst (ParseSyslog tp c1 (CHR ''<'' # ds @ CHR ''>'' # r1) src) =
         fst (ParseSyslog tp c2 (CHR ''<'' # ds @ CHR ''>'' # r1) src)
         \<and> (fst (ParseSyslog tp c1 (CHR ''<'' # ds @ CHR ''>'' # r1) src) = Inr m2
              \<longrightarrow> Timestamp m2 = ts')"
    if "CHR ''>'' \<notin> set ds" "1 \<le> length ds" "length ds \<le> 3" "Atoi ds = Some pri"
       "r1 \<noteq> []" "hd r1 \<noteq> CHR ''1''" "Parse_Stamp tp (take 15 r1) = Some ts'"
    using legacy_parsed_no_clock [OF that] legacy_parsed_Timestamp [OF that]
    by blast
  from a b c d e show ?thesis by blast
qed

theorem clock_read_once_on_every_run_witness:
  "fst (ParseSyslog test_time test_clock ''hello'' ''::1'') =
     Inr \<lparr>Version = 0, Facility = 0, Severity = 5,
           Timestamp = ''2015-12-15 19:54:41 +0000 UTC'', Hostname = ''::1'', Tag = [],
           StructuredData = [], Message = ''hello'', Source = ''::1''\<rparr>
   \<and> fst (ParseSyslog test_time (test_clock\<lparr>consulted := 7\<rparr>) ''hello'' ''::1'') =
       fst (ParseSyslog test_time test_clock ''hello'' ''::1'')
   \<and> snd (ParseSyslog test_time test_clock ''hello'' ''::1'') = test_clock\<lparr>consulted := 1\<rparr>
   \<and> fst (ParseSyslog test_time (test_clock\<lparr>consulted := 7\<rparr>)
            ''<13>1 2015-12-15T11:54:41.946675-08:00 h a p m text'' ''::1'') =
       Inr \<lparr>Version = 1, Facility = 1, Severity = 5,
           Timestamp = ''2015-12-15 11:54:41.946675 -0800 -0800'', Hostname = ''h'',
           Tag = ''a p m'', StructuredData = [], Message = ''text'', Source = ''::1''\<rparr>
   \<and> fst (ParseSyslog test_time (test_clock\<lparr>consulted := 7\<rparr>)
            ''<13>Dec 15 11:55:02 host user: message'' ''::1'') =
       Inr \<lparr>Version = 0, Facility = 1, Severity = 5,
           Timestamp = ''0000-12-15 11:55:02 +0000 UTC'', Hostname = ''host'',
           Tag = ''user:'', StructuredData = [], Message = ''message'', Source = ''::1''\<rparr>"
proof -
  let ?c2 = "test_clock\<lparr>consulted := 7\<rparr>"
  let ?tok = "''2015-12-15T11:54:41.946675-08:00''"
  have same: "now_utc test_clock = now_utc ?c2" by simp
  have pri: "CHR ''>'' \<notin> set ''13''" "1 \<le> length ''13''" "length ''13'' \<le> 3"
    by simp_all
  have tok: "CHR '' '' \<notin> set ?tok" by simp
  have ts: "(case Parse_RFC3339Nano test_time ?tok of Some t \<Rightarrow> Some t
             | None \<Rightarrow> Parse_RFC3339 test_time ?tok)
            = Some ''2015-12-15 11:54:41.946675 -0800 -0800''"
    by (simp add: test_time_def)
  have leg: "''Dec 15 11:55:02 host user: message'' \<noteq> []"
    "hd ''Dec 15 11:55:02 host user: message'' \<noteq> CHR ''1''"
    "Parse_Stamp test_time (take 15 ''Dec 15 11:55:02 host user: message'')
       = Some ''0000-12-15 11:55:02 +0000 UTC''"
    by (simp_all add: test_time_def)
  have r0: "fst (ParseSyslog test_time test_clock ''hello'' ''::1'') =
     Inr \<lparr>Version = 0, Facility = 0, Severity = 5,
           Timestamp = ''2015-12-15 19:54:41 +0000 UTC'', Hostname = ''::1'', Tag = [],
           StructuredData = [], Message = ''hello'', Source = ''::1''\<rparr>"
    by code_simp
  have r1: "fst (ParseSyslog test_time test_clock
            (CHR ''<'' # ''13'' @ CHR ''>'' # CHR ''1'' # CHR '' '' # ?tok @ CHR '' '' #
               ''h a p m text'') ''::1'') =
       Inr \<lparr>Version = 1, Facility = 1, Severity = 5,
           Timestamp = ''2015-12-15 11:54:41.946675 -0800 -0800'', Hostname = ''h'',
           Tag = ''a p m'', StructuredData = [], Message = ''text'', Source = ''::1''\<rparr>"
    by code_simp
  have r2: "fst (ParseSyslog test_time test_clock
            (CHR ''<'' # ''13'' @ CHR ''>'' # ''Dec 15 11:55:02 host user: message'') ''::1'') =
       Inr \<lparr>Version = 0, Facility = 1, Severity = 5,
           Timestamp = ''0000-12-15 11:55:02 +0000 UTC'', Hostname = ''host'',
           Tag = ''user:'', StructuredData = [], Message = ''message'', Source = ''::1''\<rparr>"
    by code_simp
  from clock_read_once_on_every_run
         [of test_clock ?c2 test_time "''hello''" "''::1''" "''13''" 13 ?tok
             "''2015-12-15 11:54:41.946675 -0800 -0800''" "CHR '' ''" "''h a p m text''"
             "\<lparr>Version = 1, Facility = 1, Severity = 5,
               Timestamp = ''2015-12-15 11:54:41.946675 -0800 -0800'', Hostname = ''h'',
               Tag = ''a p m'', StructuredData = [], Message = ''text'', Source = ''::1''\<rparr>"
             "''Dec 15 11:55:02 host user: message''" "''0000-12-15 11:55:02 +0000 UTC''"
             "\<lparr>Version = 0, Facility = 1, Severity = 5,
               Timestamp = ''0000-12-15 11:55:02 +0000 UTC'', Hostname = ''host'',
               Tag = ''user:'', StructuredData = [], Message = ''message'',
               Source = ''::1''\<rparr>"]
       same pri Atoi_13 tok ts leg r1 r2
  have "fst (ParseSyslog test_time test_clock ''hello'' ''::1'') =
          fst (ParseSyslog test_time ?c2 ''hello'' ''::1'')"
    and "snd (ParseSyslog test_time test_clock ''hello'' ''::1'')
          = test_clock\<lparr>consulted := consulted test_clock + 1\<rparr>"
    and "fst (ParseSyslog test_time test_clock
            (CHR ''<'' # ''13'' @ CHR ''>'' # CHR ''1'' # CHR '' '' # ?tok @ CHR '' '' #
               ''h a p m text'') ''::1'') =
         fst (ParseSyslog test_time ?c2
            (CHR ''<'' # ''13'' @ CHR ''>'' # CHR ''1'' # CHR '' '' # ?tok @ CHR '' '' #
               ''h a p m text'') ''::1'')"
    and "fst (ParseSyslog test_time test_clock
            (CHR ''<'' # ''13'' @ CHR ''>'' # ''Dec 15 11:55:02 host user: message'') ''::1'') =
         fst (ParseSyslog test_time ?c2
            (CHR ''<'' # ''13'' @ CHR ''>'' # ''Dec 15 11:55:02 host user: message'') ''::1'')"
    by blast+
  with r0 r1 r2 show ?thesis by (simp add: test_clock_def)
qed

text \<open>
  C5. As stated the claim fails: the structured-data block (lines 85 to 90) comes after
  the \<open>if\<close> of the five-way split, not inside it, so it also runs when the split has
  failed. Here the remainder \<open>[ab] msg\<close> splits into two parts, and still \<open>[ab\<close> is
  taken as StructuredData and Message is \<open>msg\<close>, not the unsplit remainder.
\<close>

theorem failed_split_structured_data_extracted:
  "fst (ParseSyslog test_time test_clock
          ''<13>1 2015-12-15T11:54:41.946675-08:00 [ab] msg'' ''127.0.0.1'') =
     Inr \<lparr>Version = 1, Facility = 1, Severity = 5,
           Timestamp = ''2015-12-15 11:54:41.946675 -0800 -0800'',
           Hostname = ''127.0.0.1'', Tag = [], StructuredData = ''[ab'',
           Message = ''msg'', Source = ''127.0.0.1''\<rparr>
   \<and> SplitN ''[ab] msg'' CHR '' '' 5 = [''[ab]'', ''msg'']"
  by code_simp

text \<open>
  C5, amended. In the structured grammar, after a successful timestamp, if splitting the
  remainder on spaces does not yield exactly 5 parts, then on every run that returns a
  message Hostname and Tag keep their defaults (the source address and the empty string),
  and structured-data extraction is still attempted on the unsplit remainder: when it
  begins with \<open>[\<close> and its first \<open>]\<close> is at an index above 1, StructuredData is the
  remainder up to that \<open>]\<close> and Message starts two bytes after the \<open>]\<close>; otherwise
  StructuredData stays empty and the entire unsplit remainder becomes Message.
\<close>

theorem short_split_still_reads_structured_data:
  assumes "CHR ''>'' \<notin> set ds" and "1 \<le> length ds" and "length ds \<le> 3"
    and "Atoi ds = Some pri"
    and "CHR '' '' \<notin> set tok"
    and "(case Parse_RFC3339Nano tp tok of Some t \<Rightarrow> Some t
          | None \<Rightarrow> Parse_RFC3339 tp tok) = Some ts"
    and "length (SplitN rem CHR '' '' 5) \<noteq> 5"
    and "fst (ParseSyslog tp clk
           (CHR ''<'' # ds @ CHR ''>'' # CHR ''1'' # c # tok @ CHR '' '' # rem) src) = Inr m"
  shows "Timestamp m = ts \<and> Hostname m = src \<and> Tag m = [] \<and>
     (if hd rem = CHR ''['' \<and> 1 < IndexRune rem CHR '']''
      then StructuredData m = take (nat (IndexRune rem CHR '']'')) rem
           \<and> Message m = drop (nat (IndexRune rem CHR '']'') + 2) rem
      else StructuredData m = [] \<and> Message m = rem)"
proof -
  let ?m0 = "\<lparr>Version = 0, Facility = 0, Severity = 5, Timestamp = now_utc clk,
              Hostname = src, Tag = [], StructuredData = [], Message = [], Source = src\<rparr>"
  let ?m1 = "?m0\<lparr>Facility := drop_bit 3 pri, Severity := and pri 7\<rparr>"
  from ParseSyslog_returns [OF assms(8)] obtain msg' rest where
    p: "parse_pri tp ?m0 (CHR ''<'' # ds @ CHR ''>'' # CHR ''1'' # c # tok @ CHR '' '' # rem)
          = Inr (msg', rest)"
    and m: "m = msg'\<lparr>Message := rest\<rparr>"
    by blast
  from p assms(1-4) have
    "parse_structured tp ?m1 (CHR ''1'' # c # tok @ CHR '' '' # rem) = Inr (msg', rest)"
    by (simp add: parse_pri_shape parse_after_pri_one)
  with assms(6) have
    "(case parse_structured_fields (?m1\<lparr>Version := 1, Timestamp := ts\<rparr>) rem of
        (msg2, rest2) \<Rightarrow> parse_structured_data msg2 rest2) = Inr (msg', rest)"
    by (simp add: parse_structured_shape [OF assms(5)])
  with assms(7) have
    d: "parse_structured_data (?m1\<lparr>Version := 1, Timestamp := ts\<rparr>) rem = Inr (msg', rest)"
    by (simp add: parse_structured_fields_def Let_def)
  show ?thesis
  proof (cases "hd rem = CHR ''['' \<and> 1 < IndexRune rem CHR '']''")
    case True
    with d m show ?thesis
      by (auto simp: parse_structured_data_cases split: if_splits)
  next
    case False
    with d m show ?thesis
      by (auto simp: parse_structured_data_cases split: if_splits)
  qed
qed

theorem short_split_still_reads_structured_data_witness:
  "fst (ParseSyslog test_time test_clock
          ''<13>1 2015-12-15T11:54:41.946675-08:00 [x=1] a b'' ''127.0.0.1'') =
     Inr \<lparr>Version = 1, Facility = 1, Severity = 5,
           Timestamp = ''2015-12-15 11:54:41.946675 -0800 -0800'',
           Hostname = ''127.0.0.1'', Tag = [], StructuredData = ''[x=1'',
           Message = ''a b'', Source = ''127.0.0.1''\<rparr>
   \<and> length (SplitN ''[x=1] a b'' CHR '' '' 5) = 3
   \<and> IndexRune ''[x=1] a b'' CHR '']'' = 4"
proof -
  have run: "fst (ParseSyslog test_time test_clock
          (CHR ''<'' # ''13'' @ CHR ''>'' # CHR ''1'' # CHR '' '' #
             ''2015-12-15T11:54:41.946675-08:00'' @ CHR '' '' # ''[x=1] a b'') ''127.0.0.1'') =
     Inr \<lparr>Version = 1, Facility = 1, Severity = 5,
           Timestamp = ''2015-12-15 11:54:41.946675 -0800 -0800'',
           Hostname = ''127.0.0.1'', Tag = [], StructuredData = ''[x=1'',
           Message = ''a b'', Source = ''127.0.0.1''\<rparr>"
    by code_simp
  have sp: "length (SplitN ''[x=1] a b'' CHR '' '' 5) = 3" by code_simp
  have ix: "IndexRune ''[x=1] a b'' CHR '']'' = 4" by simp
  have a: "CHR ''>'' \<notin> set ''13''" "1 \<le> length ''13''" "length ''13'' \<le> 3"
    by simp_all
  have b: "CHR '' '' \<notin> set ''2015-12-15T11:54:41.946675-08:00''" by simp
  have t: "(case Parse_RFC3339Nano test_time ''2015-12-15T11:54:41.946675-08:00'' of
              Some t \<Rightarrow> Some t
            | None \<Rightarrow> Parse_RFC3339 test_time ''2015-12-15T11:54:41.946675-08:00'')
           = Some ''2015-12-15 11:54:41.946675 -0800 -0800''"
    by (simp add: test_time_def)
  have n5: "length (SplitN ''[x=1] a b'' CHR '' '' 5) \<noteq> 5" using sp by simp
  from short_split_still_reads_structured_data [OF a Atoi_13 b t n5 run] run sp ix
  show ?thesis by simp
qed

text \<open>
  C6. The claim is that for every \<open>p\<close> in [0,191], parsing a buffer that begins with
  \<open><p>\<close>, \<open>p\<close> in decimal, yields Facility \<open>p div 8\<close> and Severity \<open>p mod 8\<close>, with
  \<open>Facility * 8 + Severity = p\<close>, and that deriving the pair again from the rebuilt
  number gives the same pair. On every run that returns a message this is so; but the
  buffer that is \<open><p>\<close> and nothing more begins with \<open><p>\<close> too, and there \<open>rest[0]\<close>
  at line 60 panics, for every such \<open>p\<close>.
\<close>

theorem pri_arithmetic:
  assumes "p \<le> 191"
  shows "fst (ParseSyslog tp clk (CHR ''<'' # decimal p @ ''>'') src) = Inl IndexOutOfRange
     \<and> (fst (ParseSyslog tp clk (CHR ''<'' # decimal p @ CHR ''>'' # tail) src) = Inr m \<longrightarrow>
          Facility m = int p div 8 \<and> Severity m = int p mod 8
          \<and> Facility m * 8 + Severity m = int p
          \<and> drop_bit 3 (Facility m * 8 + Severity m) = Facility m
          \<and> and (Facility m * 8 + Severity m) 7 = Severity m)"
proof
  from assms have p: "p < 1000" by simp
  show "fst (ParseSyslog tp clk (CHR ''<'' # decimal p @ ''>'') src) = Inl IndexOutOfRange"
    by (simp add: ParseSyslog_fst parse_pri_decimal [OF p] parse_after_pri_def index_at_def)
  show "fst (ParseSyslog tp clk (CHR ''<'' # decimal p @ CHR ''>'' # tail) src) = Inr m \<longrightarrow>
          Facility m = int p div 8 \<and> Severity m = int p mod 8
          \<and> Facility m * 8 + Severity m = int p
          \<and> drop_bit 3 (Facility m * 8 + Severity m) = Facility m
          \<and> and (Facility m * 8 + Severity m) 7 = Severity m"
  proof
    assume ret: "fst (ParseSyslog tp clk (CHR ''<'' # decimal p @ CHR ''>'' # tail) src) = Inr m"
    from ParseSyslog_returns [OF ret] obtain msg' rest where
      q: "parse_pri tp \<lparr>Version = 0, Facility = 0, Severity = 5, Timestamp = now_utc clk,
              Hostname = src, Tag = [], StructuredData = [], Message = [], Source = src\<rparr>
            (CHR ''<'' # decimal p @ CHR ''>'' # tail) = Inr (msg', rest)"
      and m: "m = msg'\<lparr>Message := rest\<rparr>"
      by blast
    from q have "parse_after_pri tp
         (\<lparr>Version = 0, Facility = 0, Severity = 5, Timestamp = now_utc clk,
              Hostname = src, Tag = [], StructuredData = [], Message = [], Source = src\<rparr>
            \<lparr>Facility := int p div 8, Severity := int p mod 8\<rparr>) tail = Inr (msg', rest)"
      by (simp add: parse_pri_decimal [OF p])
    from parse_after_pri_frame [OF this] m have
      f: "Facility m = int p div 8" and s: "Severity m = int p mod 8"
      by simp_all
    then have r: "Facility m * 8 + Severity m = int p" by simp
    from f s r show "Facility m = int p div 8 \<and> Severity m = int p mod 8
          \<and> Facility m * 8 + Severity m = int p
          \<and> drop_bit 3 (Facility m * 8 + Severity m) = Facility m
          \<and> and (Facility m * 8 + Severity m) 7 = Severity m"
      by (simp add: drop_bit_3_div and_7_mod)
  qed
qed

theorem pri_arithmetic_witness:
  "(165::nat) \<le> 191 \<and> decimal 165 = ''165''
   \<and> fst (ParseSyslog test_time test_clock ''<165>'' ''127.0.0.1'') = Inl IndexOutOfRange
   \<and> fst (ParseSyslog test_time test_clock ''<165>hello, world: hi'' ''127.0.0.1'') =
       Inr \<lparr>Version = 0, Facility = 20, Severity = 5,
           Timestamp = ''2015-12-15 19:54:41 +0000 UTC'', Hostname = ''127.0.0.1'',
           Tag = [], StructuredData = [], Message = ''hello, world: hi'',
           Source = ''127.0.0.1''\<rparr>
   \<and> (20::int) = int 165 div 8 \<and> (5::int) = int 165 mod 8 \<and> (20::int) * 8 + 5 = int 165"
proof -
  have le: "(165::nat) \<le> 191" by simp
  have d: "decimal 165 = ''165''" by code_simp
  have run: "fst (ParseSyslog test_time test_clock
                   (CHR ''<'' # decimal 165 @ CHR ''>'' # ''hello, world: hi'') ''127.0.0.1'') =
       Inr \<lparr>Version = 0, Facility = 20, Severity = 5,
           Timestamp = ''2015-12-15 19:54:41 +0000 UTC'', Hostname = ''127.0.0.1'',
           Tag = [], StructuredData = [], Message = ''hello, world: hi'',
           Source = ''127.0.0.1''\<rparr>"
    unfolding d by code_simp
  from pri_arithmetic [OF le, of test_time test_clock "''127.0.0.1''" "''hello, world: hi''"
         "\<lparr>Version = 0, Facility = 20, Severity = 5,
           Timestamp = ''2015-12-15 19:54:41 +0000 UTC'', Hostname = ''127.0.0.1'',
           Tag = [], StructuredData = [], Message = ''hello, world: hi'',
           Source = ''127.0.0.1''\<rparr>"] run d
  show ?thesis by simp
qed

text \<open>
  C7. The claim describes the legacy grammar: the first 15 bytes after the PRI are parsed
  as the stamp; on success the parser advances 16 bytes and splits the remainder on
  spaces into 3 parts, Hostname, Tag and Message; on stamp failure, or when the split
  does not give 3 parts, the unconsumed remainder becomes Message; Version stays 0. The
  theorem gives what ParseSyslog does on every buffer that reaches the legacy grammar (a
  successful PRI stage, then a byte other than \<open>1\<close>): it is what the claim says whenever
  at least 16 bytes follow the PRI (15 when the stamp is rejected), and
  a panic otherwise, at \<open>rest[:15]\<close> (line 95) when fewer than 15 bytes follow the PRI
  and at \<open>rest[16:]\<close> (line 97) when the buffer ends with an accepted stamp.
\<close>

theorem legacy_path:
  assumes "CHR ''>'' \<notin> set ds" and "1 \<le> length ds" and "length ds \<le> 3"
    and "Atoi ds = Some pri"
    and "r1 \<noteq> []" and "hd r1 \<noteq> CHR ''1''"
  shows "fst (ParseSyslog tp clk (CHR ''<'' # ds @ CHR ''>'' # r1) src) =
     (if length r1 < 15 then Inl SliceBoundsOutOfRange
      else case Parse_Stamp tp (take 15 r1) of
        None \<Rightarrow>
          Inr \<lparr>Version = 0, Facility = pri div 8, Severity = pri mod 8,
                Timestamp = now_utc clk, Hostname = src, Tag = [], StructuredData = [],
                Message = r1, Source = src\<rparr>
      | Some ts \<Rightarrow>
          if length r1 < 16 then Inl SliceBoundsOutOfRange
          else if length (SplitN (drop 16 r1) CHR '' '' 3) = 3
          then Inr \<lparr>Version = 0, Facility = pri div 8, Severity = pri mod 8,
                Timestamp = ts, Hostname = SplitN (drop 16 r1) CHR '' '' 3 ! 0,
                Tag = SplitN (drop 16 r1) CHR '' '' 3 ! 1, StructuredData = [],
                Message = SplitN (drop 16 r1) CHR '' '' 3 ! 2, Source = src\<rparr>
          else Inr \<lparr>Version = 0, Facility = pri div 8, Severity = pri mod 8,
                Timestamp = ts, Hostname = src, Tag = [], StructuredData = [],
                Message = drop 16 r1, Source = src\<rparr>)"
proof -
  have "parse_pri tp msg (CHR ''<'' # ds @ CHR ''>'' # r1) =
          parse_legacy tp (msg\<lparr>Facility := pri div 8, Severity := pri mod 8\<rparr>) r1" for msg
    using assms
    by (simp add: parse_pri_shape parse_after_pri_other drop_bit_3_div and_7_mod)
  then show ?thesis
    by (simp add: ParseSyslog_fst parse_legacy_def slice_to_def slice_from_def Let_def
             split: option.splits)
qed

theorem legacy_path_witness:
  "fst (ParseSyslog test_time test_clock ''<13>Dec 15 11:55:02'' ''127.0.0.1'') =
     Inl SliceBoundsOutOfRange
   \<and> Atoi ''13'' = Some 13 \<and> length ''Dec 15 11:55:02'' = 15
   \<and> Parse_Stamp test_time (take 15 ''Dec 15 11:55:02'') = Some ''0000-12-15 11:55:02 +0000 UTC''"
proof -
  have a: "CHR ''>'' \<notin> set ''13''" "1 \<le> length ''13''" "length ''13'' \<le> 3"
    by simp_all
  have b: "''Dec 15 11:55:02'' \<noteq> []" "hd ''Dec 15 11:55:02'' \<noteq> CHR ''1''"
    by simp_all
  have st: "Parse_Stamp test_time (take 15 ''Dec 15 11:55:02'')
              = Some ''0000-12-15 11:55:02 +0000 UTC''"
    by (simp add: test_time_def)
  from legacy_path [OF a Atoi_13 b, of test_time test_clock "''127.0.0.1''"] st Atoi_13
  show ?thesis by simp
qed

end
